theory Spec2Isabelle
  imports Main "HOL-Library.AList" "HOL-Library.Multiset" "HOL-Library.Sublist"
begin

section \<open>Python values used by the city hall spiders\<close>

text \<open>
  Strings are character lists; a character above 127 is read as the Latin-1 code point of
  the same number, which covers the Portuguese text of the portal.
  Exceptions of the source are values of \<open>error\<close>; a function that may raise returns
  \<open>error + 'a\<close>. A generator returns the items it yielded and the exception that ended
  it, if any.
\<close>

datatype error = AttributeError | IndexError | KeyError | ValueError | OverflowError

type_synonym 'a generated = "'a list \<times> error option"

type_synonym pydict = "(string \<times> string) list"

text \<open>\<open>scrapy.FormRequest(url, formdata=..., callback=..., meta=...)\<close>.\<close>

record form_request =
  req_url :: string
  formdata :: pydict
  callback :: string
  meta :: "(string \<times> pydict) list"

section \<open>COVID19ExpensesSpider.start\_requests\<close>

definition covid_url :: string where
  "covid_url = ''http://www.transparencia.feiradesantana.ba.gov.br/controller/despesaCovid.php''"

definition covid_data :: pydict where
  "covid_data =
     [(''POST_PARAMETRO'', ''PesquisaDespesasCovid''),
      (''POST_DATA'', ''''),
      (''POST_NMCREDOR'', ''''),
      (''POST_CPFCNPJ'', ''''),
      (''POST_BEM'', '''')]"

text \<open>
  The loop body copies the template and stores the phase in the copy, then builds the
  request from the template itself.
\<close>

definition covid_start_request :: "pydict \<Rightarrow> string \<Rightarrow> form_request" where
  "covid_start_request self_data phase =
     (let data = AList.update ''POST_FASE'' phase self_data
      in \<lparr>req_url = covid_url, formdata = self_data, callback = ''parse'', meta = []\<rparr>)"

definition covid_start_requests :: "form_request list" where
  "covid_start_requests = map (covid_start_request covid_data) [''PAG'', ''EMP'', ''LIQ'']"

section \<open>Strings\<close>

text \<open>Latin-1 characters of the portal's labels.\<close>

abbreviation (input) c_deg :: char where "c_deg \<equiv> CHR 0xB0"
abbreviation (input) c_a_tilde :: char where "c_a_tilde \<equiv> CHR 0xE3"
abbreviation (input) c_c_cedil :: char where "c_c_cedil \<equiv> CHR 0xE7"
abbreviation (input) c_o_acute :: char where "c_o_acute \<equiv> CHR 0xF3"
abbreviation (input) c_o_circ :: char where "c_o_circ \<equiv> CHR 0xF4"

text \<open>\<open>str.isspace\<close> on one character (the Latin-1 part of Python's whitespace).\<close>

definition is_space :: "char \<Rightarrow> bool" where
  "is_space c = (of_char c \<in> {9, 10, 11, 12, 13, 28, 29, 30, 31, 32, 133, 160 :: nat})"

text \<open>\<open>str.strip()\<close>.\<close>

definition strip :: "string \<Rightarrow> string" where
  "strip s = rev (dropWhile is_space (rev (dropWhile is_space s)))"

section \<open>Label mode: PaymentsSpider.parse\_page and COVID19ExpensesSpider.parse\_page\<close>

text \<open>
  Every item of the spiders has the fields \<open>crawled_at\<close> and \<open>crawled_from\<close>; the
  type of timestamps is a parameter.
  \<open>CityHallPaymentsItem\<close>: the four headline fields and the provenance fields are set by the
  constructor call; the fields assigned afterwards by \<open>item[mapping[key]] = value\<close> are kept
  in \<open>labelled\<close> under their field names.
\<close>

record 't provenance =
  crawled_at :: 't
  crawled_from :: string

record 't payments_item = "'t provenance" +
  published_at :: string
  phase :: string
  company_or_person :: string
  pay_value :: string
  labelled :: "string \<rightharpoonup> string"

text \<open>The dictionary \<open>mapping\<close> of both functions.\<close>

definition mapping :: "(string \<times> string) list" where
  "mapping =
     [(''N'' @ [c_deg] @ '':'', ''number''),
      (''CPF/CNPJ:'', ''document''),
      (''Data:'', ''date''),
      (''N'' @ [c_deg] @ '' do processo:'', ''process_number''),
      (''Bem / Servi'' @ [c_c_cedil] @ ''o Prestado:'', ''summary''),
      (''Natureza:'', ''group''),
      (''A'' @ [c_c_cedil, c_a_tilde] @ ''o:'', ''action''),
      (''Fun'' @ [c_c_cedil, c_a_tilde] @ ''o:'', ''function''),
      (''Subfun'' @ [c_c_cedil, c_a_tilde] @ ''o:'', ''subfunction''),
      (''Processo Licitat'' @ [c_o_acute] @ ''rio:'', ''type_of_process''),
      (''Fonte de Recurso:'', ''resource'')]"

text \<open>
  The loop \<open>while details_copy: key = pop(0); value = pop(0); item[mapping[key]] = value\<close>.
  The second \<open>pop\<close> on an emptied list raises IndexError, before the lookup of the key;
  a key missing from \<open>mapping\<close> raises KeyError.
\<close>

fun pop_details :: "string list \<Rightarrow> (string \<rightharpoonup> string) \<Rightarrow> error + (string \<rightharpoonup> string)" where
  "pop_details [] assigned = Inr assigned"
| "pop_details [key] assigned = Inl IndexError"
| "pop_details (key # val # details_copy) assigned =
     (case map_of mapping key of
        None \<Rightarrow> Inl KeyError
      | Some name \<Rightarrow> pop_details details_copy (assigned(name \<mapsto> val)))"

text \<open>
  One iteration of \<open>for headline, raw_details in zip(headlines, details)\<close>: the texts of
  the headline cells, the texts of the detail cells, the clock reading taken by
  \<open>datetime_utcnow_aware()\<close> and the value given to \<open>crawled_from\<close>.
\<close>

definition payment_item ::
  "'t \<Rightarrow> string \<Rightarrow> string list \<Rightarrow> string list \<Rightarrow> error + 't payments_item" where
  "payment_item now source raw_headline raw_details =
     (let headline = map strip raw_headline in
      if length headline < 4 then Inl IndexError
      else
        let item = \<lparr>crawled_at = now, crawled_from = source,
                    published_at = headline ! 0, phase = headline ! 1,
                    company_or_person = headline ! 2, pay_value = headline ! 3,
                    labelled = Map.empty\<rparr>;
            details = map strip raw_details
        in case pop_details details (labelled item) of
             Inl e \<Rightarrow> Inl e
           | Inr assigned \<Rightarrow> Inr (item\<lparr>labelled := assigned\<rparr>))"

text \<open>
  The generator: items are yielded in order until an iteration raises. The clock is a
  function from the number of earlier readings to the time read; every iteration that
  reaches the constructor call reads it once.
\<close>

fun payment_items ::
  "(nat \<Rightarrow> 't) \<Rightarrow> nat \<Rightarrow> string \<Rightarrow> (string list \<times> string list) list
     \<Rightarrow> 't payments_item generated" where
  "payment_items clock k source [] = ([], None)"
| "payment_items clock k source ((raw_headline, raw_details) # rest) =
     (case payment_item (clock k) source raw_headline raw_details of
        Inl e \<Rightarrow> ([], Some e)
      | Inr item \<Rightarrow>
          (case payment_items clock (Suc k) source rest of
             (items, e) \<Rightarrow> (item # items, e)))"

text \<open>
  The response as the selectors see it: its URL, the cell texts of every
  \<open>tr.accordion-toggle\<close> and the cell texts of every \<open>div.accordion-inner\<close>.
\<close>

record payments_response =
  pr_url :: string
  pr_headlines :: "string list list"
  pr_details :: "string list list"

definition PaymentsSpider_parse_page ::
  "(nat \<Rightarrow> 't) \<Rightarrow> payments_response \<Rightarrow> 't payments_item generated" where
  "PaymentsSpider_parse_page clock response =
     payment_items clock 0 (pr_url response) (zip (pr_headlines response) (pr_details response))"

definition covid_source :: string where
  "covid_source = ''http://www.transparencia.feiradesantana.ba.gov.br/index.php?view=despesascovid''"

definition COVID19ExpensesSpider_parse_page ::
  "(nat \<Rightarrow> 't) \<Rightarrow> payments_response \<Rightarrow> 't payments_item generated" where
  "COVID19ExpensesSpider_parse_page clock response =
     payment_items clock 0 covid_source (zip (pr_headlines response) (pr_details response))"

text \<open>A list of (label, value) pairs laid out as the flat token sequence.\<close>

fun flat_pairs :: "(string \<times> string) list \<Rightarrow> string list" where
  "flat_pairs [] = []"
| "flat_pairs ((key, val) # ps) = key # val # flat_pairs ps"

text \<open>The field name and value that one (label, value) pair assigns.\<close>

definition field_pair :: "string \<times> string \<Rightarrow> string \<times> string" where
  "field_pair p = (the (map_of mapping (fst p)), snd p)"

section \<open>More of Python's strings and integers\<close>

text \<open>\<open>str.split(sep)\<close> for a separator that is not empty: the pieces between the
  occurrences of \<open>sep\<close>, found from left to right without overlap. The second argument
  holds the characters of the current piece, last one first.\<close>

function py_split_from :: "string \<Rightarrow> string \<Rightarrow> string \<Rightarrow> string list" where
  "py_split_from sep cur [] = [rev cur]"
| "py_split_from sep cur (c # cs) =
     (if sep \<noteq> [] \<and> prefix sep (c # cs)
      then rev cur # py_split_from sep [] (drop (length sep) (c # cs))
      else py_split_from sep (c # cur) cs)"
  by pat_completeness auto
termination
  by (relation "measure (\<lambda>(sep, cur, s). length s)") (auto simp: neq_Nil_conv)

definition py_split :: "string \<Rightarrow> string \<Rightarrow> string list" where
  "py_split sep s = py_split_from sep [] s"

text \<open>\<open>needle in haystack\<close> on strings.\<close>

fun py_in :: "string \<Rightarrow> string \<Rightarrow> bool" where
  "py_in needle [] = (needle = [])"
| "py_in needle (c # cs) = (prefix needle (c # cs) \<or> py_in needle cs)"

definition is_digit :: "char \<Rightarrow> bool" where
  "is_digit c = (48 \<le> (of_char c :: nat) \<and> (of_char c :: nat) \<le> 57)"

definition digit_value :: "char \<Rightarrow> nat" where
  "digit_value c = of_char c - 48"

text \<open>The digits of an integer literal: a digit, then digits each optionally preceded by
  one underscore.\<close>

fun int_digits :: "nat \<Rightarrow> string \<Rightarrow> nat option" where
  "int_digits acc [] = Some acc"
| "int_digits acc (c # cs) =
     (if is_digit c then int_digits (10 * acc + digit_value c) cs
      else if c = CHR ''_'' then
        (case cs of
           [] \<Rightarrow> None
         | d # _ \<Rightarrow> if is_digit d then int_digits acc cs else None)
      else None)"

text \<open>\<open>int(s)\<close> in base ten: surrounding whitespace is dropped, a sign may come first;
  \<open>None\<close> stands for the ValueError of a string that is no integer literal. The
  whitespace that \<open>int\<close> drops is that of \<open>str.strip\<close> without the separators
  U+001C to U+001F. (The limit that later Python versions put on the number of digits is
  left out.)\<close>

definition is_int_space :: "char \<Rightarrow> bool" where
  "is_int_space c = (of_char c \<in> {9, 10, 11, 12, 13, 32, 133, 160 :: nat})"

definition py_int :: "string \<Rightarrow> int option" where
  "py_int s =
     (case rev (dropWhile is_int_space (rev (dropWhile is_int_space s))) of
        [] \<Rightarrow> None
      | c # cs \<Rightarrow>
          (let body = (if c = CHR ''-'' \<or> c = CHR ''+'' then cs else c # cs) in
           case body of
             [] \<Rightarrow> None
           | d # _ \<Rightarrow>
               if is_digit d
               then map_option (\<lambda>n. if c = CHR ''-'' then - int n else int n) (int_digits 0 body)
               else None))"

text \<open>\<open>str(n)\<close> for an integer.\<close>

fun str_nat :: "nat \<Rightarrow> string" where
  "str_nat n =
     (if n < 10 then [char_of (48 + n)] else str_nat (n div 10) @ [char_of (48 + n mod 10)])"

declare str_nat.simps [simp del]

definition py_str :: "int \<Rightarrow> string" where
  "py_str i = (if i < 0 then CHR ''-'' # str_nat (nat (- i)) else str_nat (nat i))"

section \<open>Dates\<close>

text \<open>\<open>datetime.date\<close>: year, month and day. The constructor accepts only the dates of
  the calendar from 0001-01-01 to 9999-12-31.\<close>

record date =
  year :: int
  month :: int
  day :: int

definition is_leap :: "int \<Rightarrow> bool" where
  "is_leap y = (y mod 4 = 0 \<and> (y mod 100 \<noteq> 0 \<or> y mod 400 = 0))"

definition days_in_month :: "int \<Rightarrow> int \<Rightarrow> int" where
  "days_in_month y m =
     (if m = 2 then (if is_leap y then 29 else 28)
      else if m = 4 \<or> m = 6 \<or> m = 9 \<or> m = 11 then 30 else 31)"

definition valid_date :: "date \<Rightarrow> bool" where
  "valid_date d =
     (1 \<le> year d \<and> year d \<le> 9999 \<and> 1 \<le> month d \<and> month d \<le> 12
      \<and> 1 \<le> day d \<and> day d \<le> days_in_month (year d) (month d))"

text \<open>\<open>date(y, m, d)\<close>: an argument that does not fit a C int raises OverflowError, a
  date outside the calendar ValueError.\<close>

definition c_int :: "int \<Rightarrow> bool" where
  "c_int i = (- 2147483648 \<le> i \<and> i \<le> 2147483647)"

definition mk_date :: "int \<Rightarrow> int \<Rightarrow> int \<Rightarrow> error + date" where
  "mk_date y m d =
     (if \<not> (c_int y \<and> c_int m \<and> c_int d) then Inl OverflowError
      else if valid_date \<lparr>year = y, month = m, day = d\<rparr>
      then Inr \<lparr>year = y, month = m, day = d\<rparr>
      else Inl ValueError)"

text \<open>Comparison of dates: by year, then month, then day.\<close>

definition date_less :: "date \<Rightarrow> date \<Rightarrow> bool" where
  "date_less a b =
     (year a < year b \<or> year a = year b \<and> (month a < month b
        \<or> month a = month b \<and> day a < day b))"

definition date_le :: "date \<Rightarrow> date \<Rightarrow> bool" where
  "date_le a b = (date_less a b \<or> a = b)"

text \<open>\<open>d + timedelta(days=1)\<close>: the next day of the calendar; past 9999-12-31 the
  addition raises OverflowError.\<close>

definition next_day :: "date \<Rightarrow> date" where
  "next_day d =
     (if day d < days_in_month (year d) (month d) then d\<lparr>day := day d + 1\<rparr>
      else if month d < 12 then \<lparr>year = year d, month = month d + 1, day = 1\<rparr>
      else \<lparr>year = year d + 1, month = 1, day = 1\<rparr>)"

definition add_day :: "date \<Rightarrow> error + date" where
  "add_day d =
     (if d = \<lparr>year = 9999, month = 12, day = 31\<rparr> then Inl OverflowError
      else Inr (next_day d))"

text \<open>\<open>d.strftime("%d/%m/%Y")\<close>: day and month with two digits; the year as the C
  library of Linux writes it, without padding (four digits from the year 1000 on).\<close>

definition pad2 :: "int \<Rightarrow> string" where
  "pad2 i = (if i < 10 then CHR ''0'' # py_str i else py_str i)"

definition strftime_dmY :: "date \<Rightarrow> string" where
  "strftime_dmY d = pad2 (day d) @ ''/'' @ pad2 (month d) @ ''/'' @ py_str (year d)"

section \<open>BidsSpider.follow\_this\_date\<close>

text \<open>
  \<open>extract_param\<close> is a helper of \<open>scraper.spiders.utils\<close> and a parameter here: it
  gives the value of a query parameter of a URL, or \<open>None\<close>, on which \<open>.split\<close> raises
  AttributeError. \<open>start_date\<close> is the spider's configured start date.
\<close>

definition follow_this_date ::
  "(string \<Rightarrow> string \<Rightarrow> string option) \<Rightarrow> date \<Rightarrow> string \<Rightarrow> error + bool" where
  "follow_this_date extract_param start_date url =
     (case extract_param url ''dt'' of
        None \<Rightarrow> Inl AttributeError
      | Some dt \<Rightarrow>
          (let month_year = py_split ''-'' dt in
           if length month_year < 2 then Inl IndexError
           else case py_int (month_year ! 1) of
             None \<Rightarrow> Inl ValueError
           | Some y \<Rightarrow>
               (case py_int (month_year ! 0) of
                  None \<Rightarrow> Inl ValueError
                | Some m \<Rightarrow>
                    (case mk_date y m 1 of
                       Inl e \<Rightarrow> Inl e
                     | Inr month_year \<Rightarrow> Inr (date_le start_date month_year)))))"

text \<open>
  Modelled from the spec: \<open>extract_param\<close>, which is not among the sources. The spec says
  that the gate "extracts an embedded month/year token from the URL", the \<open>dt=\<close> parameter:
  here the value of the first \<open>name=value\<close> field with that name in the query part of the
  URL (between \<open>?\<close> and \<open>#\<close>, fields separated by \<open>&\<close>), \<open>None\<close> when there is none.
\<close>

definition url_query :: "string \<Rightarrow> string" where
  "url_query url =
     takeWhile (\<lambda>c. c \<noteq> CHR ''#'') (drop 1 (dropWhile (\<lambda>c. c \<noteq> CHR ''?'') url))"

fun first_param :: "string \<Rightarrow> string list \<Rightarrow> string option" where
  "first_param name [] = None"
| "first_param name (f # fs) =
     (if prefix (name @ ''='') f then Some (drop (length name + 1) f) else first_param name fs)"

definition extract_param_spec :: "string \<Rightarrow> string \<Rightarrow> string option" where
  "extract_param_spec url name = first_param name (py_split ''&'' (url_query url))"

section \<open>ContractsSpider and PaymentsSpider: start\_requests\<close>

definition contracts_url :: string where
  "contracts_url = ''http://www.transparencia.feiradesantana.ba.gov.br/controller/contrato.php''"

definition contracts_data :: pydict where
  "contracts_data =
     [(''POST_PARAMETRO'', ''PesquisaContratos''),
      (''POST_DATA'', ''''),
      (''POST_NMCREDOR'', ''''),
      (''POST_CPFCNPJ'', ''''),
      (''POST_NUCONTRATO'', '''')]"

definition payments_url :: string where
  "payments_url = ''http://www.transparencia.feiradesantana.ba.gov.br/controller/despesa.php''"

definition payments_data :: pydict where
  "payments_data =
     [(''POST_PARAMETRO'', ''PesquisaDespesas''),
      (''POST_FASE'', ''''),
      (''POST_UNIDADE'', ''''),
      (''POST_DATA'', ''''),
      (''POST_NMCREDOR'', ''''),
      (''POST_CPFCNPJ'', '''')]"

text \<open>
  The loop of both \<open>start_requests\<close>:
  \<^verbatim>\<open>while start_date < today: yield <body>; start_date = start_date + timedelta(days=1)\<close>
  with the yielded value as a function \<open>body\<close> of the loop variable.
\<close>

function day_loop :: "(date \<Rightarrow> 'a) \<Rightarrow> date \<Rightarrow> date \<Rightarrow> 'a generated" where
  "day_loop body start_date today =
     (if date_less start_date today then
        (case add_day start_date of
           Inl e \<Rightarrow> ([body start_date], Some e)
         | Inr tomorrow \<Rightarrow>
             (case day_loop body tomorrow today of
                (items, e) \<Rightarrow> (body start_date # items, e)))
      else ([], None))"
  by pat_completeness auto
termination
  by (relation "measures
        [\<lambda>(body, d, today). nat (year today + 1 - year d),
         \<lambda>(body, d, today). nat (12 - month d),
         \<lambda>(body, d, today). nat (31 - day d)]")
     (auto simp: add_day_def next_day_def date_less_def days_in_month_def split: if_splits)

declare day_loop.simps [simp del]

text \<open>The body of the loop: the request for one day, whose form data is a copy of the
  class-level template with \<open>POST_DATA\<close> set to \<open>"<day> - <day>"\<close>.\<close>

definition day_request :: "string \<Rightarrow> pydict \<Rightarrow> date \<Rightarrow> form_request" where
  "day_request self_url self_data start_date =
     (let formatted_date = strftime_dmY start_date;
          data = AList.update ''POST_DATA'' (formatted_date @ '' - '' @ formatted_date) self_data
      in \<lparr>req_url = self_url, formdata = data, callback = ''parse'', meta = [(''data'', data)]\<rparr>)"

text \<open>\<open>today\<close> is the date of the clock reading \<open>datetime_utcnow_aware().date()\<close>.\<close>

definition ContractsSpider_start_requests :: "date \<Rightarrow> date \<Rightarrow> form_request generated" where
  "ContractsSpider_start_requests start_date today =
     day_loop (day_request contracts_url contracts_data) start_date today"

definition PaymentsSpider_start_requests :: "date \<Rightarrow> date \<Rightarrow> form_request generated" where
  "PaymentsSpider_start_requests start_date today =
     day_loop (day_request payments_url payments_data) start_date today"

text \<open>The days queried: the values of the loop variable at each \<open>yield\<close>.\<close>

definition windows :: "date \<Rightarrow> date \<Rightarrow> date list" where
  "windows start_date today = fst (day_loop (\<lambda>d. d) start_date today)"

section \<open>The spiders' parse: one request per page\<close>

text \<open>
  The response as \<open>parse\<close> reads it: the texts selected by
  \<open>div.pagination li a ::text\<close> and the \<open>meta\<close> dictionary of the request.
\<close>

record listing_response =
  pagination :: "string list"
  response_meta :: "(string \<times> pydict) list"

text \<open>
  The loop \<open>for page in range(1, last_page + 1)\<close> of ContractsSpider and PaymentsSpider.
  \<open>response.meta["data"]\<close> is one dictionary, updated in place by every iteration;
  \<open>FormRequest\<close> encodes \<open>formdata\<close> when it is built, so each request keeps the values
  of its own iteration.
\<close>

fun meta_page_requests ::
  "string \<Rightarrow> (string \<times> pydict) list \<Rightarrow> int \<Rightarrow> int list \<Rightarrow> form_request generated" where
  "meta_page_requests self_url rmeta last_page [] = ([], None)"
| "meta_page_requests self_url rmeta last_page (page # pages) =
     (case map_of rmeta ''data'' of
        None \<Rightarrow> ([], Some KeyError)
      | Some data0 \<Rightarrow>
          (let data = AList.update ''POST_PAGINAS'' (py_str last_page)
                        (AList.update ''POST_PAGINA'' (py_str page) data0)
           in case meta_page_requests self_url (AList.update ''data'' data rmeta) last_page pages of
                (requests, e) \<Rightarrow>
                  (\<lparr>req_url = self_url, formdata = data, callback = ''parse_page'', meta = []\<rparr>
                     # requests, e)))"

text \<open>\<open>last_page = int(pages[-2])\<close>, guarded by \<open>if pages\<close>.\<close>

definition last_page_of :: "string list \<Rightarrow> error + int option" where
  "last_page_of pages =
     (if pages = [] then Inr None
      else if length pages < 2 then Inl IndexError
      else case py_int (pages ! (length pages - 2)) of
             None \<Rightarrow> Inl ValueError
           | Some last_page \<Rightarrow> Inr (Some last_page))"

definition meta_parse :: "string \<Rightarrow> listing_response \<Rightarrow> form_request generated" where
  "meta_parse self_url response =
     (case last_page_of (pagination response) of
        Inl e \<Rightarrow> ([], Some e)
      | Inr None \<Rightarrow> ([], None)
      | Inr (Some last_page) \<Rightarrow>
          meta_page_requests self_url (response_meta response) last_page [1..last_page])"

definition ContractsSpider_parse :: "listing_response \<Rightarrow> form_request generated" where
  "ContractsSpider_parse response = meta_parse contracts_url response"

definition PaymentsSpider_parse :: "listing_response \<Rightarrow> form_request generated" where
  "PaymentsSpider_parse response = meta_parse payments_url response"

text \<open>COVID19ExpensesSpider.parse starts every iteration from \<open>dict(self.data)\<close>.\<close>

definition covid_page_request :: "int \<Rightarrow> int \<Rightarrow> form_request" where
  "covid_page_request last_page page =
     (let data = AList.update ''POST_PAGINAS'' (py_str last_page)
                   (AList.update ''POST_PAGINA'' (py_str page) covid_data)
      in \<lparr>req_url = covid_url, formdata = data, callback = ''parse_page'', meta = []\<rparr>)"

definition COVID19ExpensesSpider_parse :: "listing_response \<Rightarrow> form_request generated" where
  "COVID19ExpensesSpider_parse response =
     (case last_page_of (pagination response) of
        Inl e \<Rightarrow> ([], Some e)
      | Inr None \<Rightarrow> ([], None)
      | Inr (Some last_page) \<Rightarrow> (map (covid_page_request last_page) [1..last_page], None))"

text \<open>The value of \<open>POST_PAGINA\<close> in a request.\<close>

definition post_pagina :: "form_request \<Rightarrow> string option" where
  "post_pagina r = map_of (formdata r) ''POST_PAGINA''"

section \<open>BidsSpider.get\_modality\<close>

text \<open>\<open>str.lower()\<close> on Latin-1: the letters A to Z and the accented capitals.\<close>

definition lower_code :: "nat \<Rightarrow> nat" where
  "lower_code n =
     (if (65 \<le> n \<and> n \<le> 90) \<or> (192 \<le> n \<and> n \<le> 222 \<and> n \<noteq> 215) then n + 32 else n)"

definition py_lower :: "string \<Rightarrow> string" where
  "py_lower s = map (\<lambda>c. char_of (lower_code (of_char c))) s"

text \<open>
  Modelled from the spec: \<open>strip_accents\<close> of \<open>scraper.spiders.utils\<close>, which is not among
  the sources. The spec calls the match "accent-stripped": every accented Latin-1 letter is
  replaced by its base letter, every other character is kept.
\<close>

definition strip_code :: "nat \<Rightarrow> nat" where
  "strip_code n =
     (if 192 \<le> n \<and> n \<le> 197 then 65
      else if n = 199 then 67
      else if 200 \<le> n \<and> n \<le> 203 then 69
      else if 204 \<le> n \<and> n \<le> 207 then 73
      else if n = 209 then 78
      else if 210 \<le> n \<and> n \<le> 214 then 79
      else if 217 \<le> n \<and> n \<le> 220 then 85
      else if n = 221 then 89
      else if 224 \<le> n \<and> n \<le> 229 then 97
      else if n = 231 then 99
      else if 232 \<le> n \<and> n \<le> 235 then 101
      else if 236 \<le> n \<and> n \<le> 239 then 105
      else if n = 241 then 110
      else if 242 \<le> n \<and> n \<le> 246 then 111
      else if 249 \<le> n \<and> n \<le> 252 then 117
      else if n = 253 \<or> n = 255 then 121
      else n)"

definition strip_accents :: "string \<Rightarrow> string" where
  "strip_accents s = map (\<lambda>c. char_of (strip_code (of_char c))) s"

text \<open>The function returns \<open>None\<close> for \<open>None\<close> and when no test succeeds.\<close>

definition get_modality :: "string option \<Rightarrow> string option" where
  "get_modality arg =
     (case arg of
        None \<Rightarrow> None
      | Some text0 \<Rightarrow>
          (let modality_text = strip_accents (py_lower text0) in
           if py_in ''tomada'' (py_lower modality_text) then Some ''tomada_de_precos''
           else if py_in ''pregao presencial'' (py_lower modality_text) then Some ''pregao_presencial''
           else if py_in ''pregao eletronico'' (py_lower modality_text) then Some ''pregao_eletronico''
           else if py_in ''leilao'' (py_lower modality_text) then Some ''leilao''
           else if py_in ''inexigibilidade'' (py_lower modality_text) then Some ''inexigibilidade''
           else if py_in ''dispensa'' (py_lower modality_text) then Some ''dispensada''
           else if py_in ''convite'' (py_lower modality_text) then Some ''convite''
           else if py_in ''concurso'' (py_lower modality_text) then Some ''concurso''
           else if py_in ''concorrencia'' (py_lower modality_text) then Some ''concorrencia''
           else if py_in ''chamada'' (py_lower modality_text) then Some ''chamada_publica''
           else if py_in ''chamamento'' (py_lower modality_text) then Some ''chamada_publica''
           else None))"

text \<open>
  The classifier in the spec's words: a fixed ordered table of keyword and category, matched
  by substring against the lower-cased, accent-stripped text; the first match wins.
\<close>

definition modality_table :: "(string \<times> string) list" where
  "modality_table =
     [(''tomada'', ''tomada_de_precos''),
      (''pregao presencial'', ''pregao_presencial''),
      (''pregao eletronico'', ''pregao_eletronico''),
      (''leilao'', ''leilao''),
      (''inexigibilidade'', ''inexigibilidade''),
      (''dispensa'', ''dispensada''),
      (''convite'', ''convite''),
      (''concurso'', ''concurso''),
      (''concorrencia'', ''concorrencia''),
      (''chamada'', ''chamada_publica''),
      (''chamamento'', ''chamada_publica'')]"

definition first_match :: "(string \<times> string) list \<Rightarrow> string \<Rightarrow> string option" where
  "first_match table normalized =
     map_option snd (find (\<lambda>entry. py_in (fst entry) normalized) table)"

section \<open>Positional mode: ContractsSpider.parse\_page\<close>

text \<open>
  A generator \<open>for x in xs: ...; yield item\<close>: the items of the iterations in order, until
  one raises. \<open>step k x\<close> is iteration number \<open>k\<close> on \<open>x\<close>.
\<close>

fun yield_each :: "(nat \<Rightarrow> 'a \<Rightarrow> error + 'b) \<Rightarrow> nat \<Rightarrow> 'a list \<Rightarrow> 'b generated" where
  "yield_each step k [] = ([], None)"
| "yield_each step k (x # xs) =
     (case step k x of
        Inl e \<Rightarrow> ([], Some e)
      | Inr item \<Rightarrow>
          (case yield_each step (Suc k) xs of
             (items, e) \<Rightarrow> (item # items, e)))"

text \<open>
  The response as the selectors see it: the \<open>th\<close> texts of every headline row and, for every
  \<open>tr.informacao\<close>, the texts of its paragraphs and the \<open>href\<close> of its button, if any.
\<close>

record contract_node =
  p_texts :: "string list"
  btn_href :: "string option"

record contracts_response =
  cr_url :: string
  cr_headlines :: "string list list"
  cr_details :: "contract_node list"

record 't contract_item = "'t provenance" +
  contract_id :: "string option"
  starts_at :: string
  summary :: string
  contractor_document :: string
  contractor_name :: string
  contract_value :: string
  ends_at :: string
  contract_files :: "string list option"

definition labels :: "string list" where
  "labels = [''Objeto:'', ''Contratada:'', ''Valor:'', ''Data Final de Contrato:'', ''VISUALIZAR'']"

definition clean_details :: "contract_node \<Rightarrow> string list" where
  "clean_details raw_details =
     filter (\<lambda>details. details \<noteq> '''' \<and> details \<notin> set labels) (map strip (p_texts raw_details))"

definition contracts_base_url :: string where
  "contracts_base_url = ''http://www.transparencia.feiradesantana.ba.gov.br''"

text \<open>
  One iteration of the loop over \<open>zip(headlines, contract_details)\<close>. Every index beyond the
  end of a list raises IndexError. \<open>identify_contract_id\<close> is a helper of
  \<open>scraper.spiders.utils\<close> and a parameter here.
\<close>

definition contract_item ::
  "(string \<Rightarrow> string option) \<Rightarrow> 't \<Rightarrow> string \<Rightarrow> string list \<Rightarrow> contract_node
     \<Rightarrow> error + 't contract_item" where
  "contract_item identify_contract_id now url contract_and_date raw_details =
     (if length contract_and_date < 2 then Inl IndexError
      else
        let contract_id = identify_contract_id (contract_and_date ! 0);
            starts_at = contract_and_date ! 1;
            details = clean_details raw_details;
            document_url = btn_href raw_details
        in if length details < 2 then Inl IndexError
           else
             let contractor = py_split '' - '' (details ! 1) in
             if length contractor < 2 then Inl IndexError
             else
               let contractor_document = contractor ! 0;
                   contractor_name = contractor ! 1
               in if length details < 4 then Inl IndexError
                  else
                    let item = \<lparr>crawled_at = now, crawled_from = url,
                                contract_id = contract_id, starts_at = starts_at,
                                summary = details ! 0,
                                contractor_document = contractor_document,
                                contractor_name = contractor_name,
                                contract_value = details ! 2, ends_at = details ! 3,
                                contract_files = None\<rparr>
                    in case document_url of
                         None \<Rightarrow> Inr item
                       | Some href \<Rightarrow>
                           if href = '''' then Inr item
                           else Inr (item\<lparr>contract_files := Some [contracts_base_url @ href]\<rparr>))"

definition ContractsSpider_parse_page ::
  "(string \<Rightarrow> string option) \<Rightarrow> (nat \<Rightarrow> 't) \<Rightarrow> contracts_response
     \<Rightarrow> 't contract_item generated" where
  "ContractsSpider_parse_page identify_contract_id clock response =
     yield_each
       (\<lambda>k (headline, raw_details).
          contract_item identify_contract_id (clock k) (cr_url response) headline raw_details)
       0 (zip (cr_headlines response) (cr_details response))"

section \<open>Positional mode: BidsSpider.parse\_page\<close>

text \<open>
  The functions that \<open>parse_page\<close> and its helpers call and that are not among the sources
  are parameters: \<open>from_str_to_datetime\<close> of \<open>datasets.parsers\<close>, \<open>is_url\<close> of
  \<open>scraper.spiders.utils\<close>, the search of the compiled \<open>url_pattern\<close> (giving the two
  groups of a match), \<open>response.urljoin\<close>, \<open>str.upper\<close> and \<open>str.capitalize\<close>.
\<close>

record 'dt bids_lib =
  from_str_to_datetime :: "string \<Rightarrow> 'dt option"
  is_url :: "string \<Rightarrow> bool"
  url_pattern_search :: "string \<Rightarrow> (string \<times> string) option"
  urljoin :: "string \<Rightarrow> string \<Rightarrow> string"
  str_upper :: "string \<Rightarrow> string"
  str_capitalize :: "string \<Rightarrow> string"

text \<open>
  The response as the XPath queries see it: the texts of the modality and date cells, and for
  every description table its \<open>href\<close> attributes and its texts, for every history table its
  rows with the text of the second and third cell and the link of the fourth.
\<close>

record description_node =
  hrefs :: "string list"
  texts :: "string list"

record history_row =
  td2_text :: "string option"
  td3_text :: "string option"
  td4_href :: "string option"

record bids_response =
  br_url :: string
  br_modalities :: "string list"
  br_descriptions :: "description_node list"
  br_bids_history :: "history_row list list"
  br_date :: "string list"

record 'dt history_event =
  event_published_at :: 'dt
  event :: string
  event_url :: string

record ('t, 'dt) bid_item = "'t provenance" +
  public_agency :: string
  bid_month :: int
  bid_year :: int
  description :: string
  history :: "'dt history_event list"
  codes :: string
  modality :: "string option"
  session_at :: "'dt option"
  bid_files :: "string list option"

text \<open>\<open>str.isspace()\<close>, \<open>str.join\<close> and \<open>str.replace\<close> (for a text to replace that is
  not empty).\<close>

definition isspace :: "string \<Rightarrow> bool" where
  "isspace s = (s \<noteq> [] \<and> list_all is_space s)"

fun py_join :: "string \<Rightarrow> string list \<Rightarrow> string" where
  "py_join sep [] = []"
| "py_join sep [x] = x"
| "py_join sep (x # y # ys) = x @ sep @ py_join sep (y # ys)"

definition py_replace :: "string \<Rightarrow> string \<Rightarrow> string \<Rightarrow> string" where
  "py_replace old new s = py_join new (py_split old s)"

text \<open>The truth value of an optional string: neither \<open>None\<close> nor empty.\<close>

definition truthy :: "string option \<Rightarrow> bool" where
  "truthy s = (s \<noteq> None \<and> s \<noteq> Some [])"

definition parse_description :: "string list \<Rightarrow> string" where
  "parse_description raw_descriptions =
     concat (filter (\<lambda>description. \<not> isspace description) (map strip raw_descriptions))"

definition parse_descriptions ::
  "'dt bids_lib \<Rightarrow> description_node list \<Rightarrow> (string \<times> string option) list" where
  "parse_descriptions lib nodes =
     concat (map (\<lambda>raw_description.
        let first_url = (case hrefs raw_description of [] \<Rightarrow> None | h # _ \<Rightarrow> Some h);
            document_url = (if truthy first_url \<and> \<not> is_url lib (the first_url)
                            then None else first_url);
            description = parse_description (texts raw_description)
        in if description \<noteq> ''Objeto'' then [(description, document_url)] else []) nodes)"

fun parse_history_rows ::
  "'dt bids_lib \<Rightarrow> history_row list \<Rightarrow> error + 'dt history_event list" where
  "parse_history_rows lib [] = Inr []"
| "parse_history_rows lib (row # rows) =
     (case td2_text row of
        None \<Rightarrow> Inl AttributeError
      | Some raw \<Rightarrow>
          (case parse_history_rows lib rows of
             Inl e \<Rightarrow> Inl e
           | Inr bids_history \<Rightarrow>
               (case from_str_to_datetime lib (strip raw) of
                  None \<Rightarrow> Inr bids_history
                | Some published \<Rightarrow>
                    if truthy (td3_text row)
                    then Inr (\<lparr>event_published_at = published,
                               event = str_capitalize lib (the (td3_text row)),
                               event_url = (if truthy (td4_href row) then the (td4_href row)
                                            else '''')\<rparr>
                              # bids_history)
                    else Inr bids_history)))"

fun parse_bids_history ::
  "'dt bids_lib \<Rightarrow> history_row list list \<Rightarrow> error + 'dt history_event list list" where
  "parse_bids_history lib [] = Inr []"
| "parse_bids_history lib (raw_bid_history # rest) =
     (case parse_history_rows lib raw_bid_history of
        Inl e \<Rightarrow> Inl e
      | Inr bids_history \<Rightarrow>
          (case parse_bids_history lib rest of
             Inl e \<Rightarrow> Inl e
           | Inr all_bids_history \<Rightarrow> Inr (bids_history # all_bids_history)))"

definition parse_modalities :: "string list \<Rightarrow> (string \<times> string option) list" where
  "parse_modalities raws =
     map (\<lambda>m. let m' = py_replace [CHR 0x0D, CHR 0x0A] '' / '' m in (m', get_modality (Some m')))
       (filter (\<lambda>m. m \<noteq> '''') (map strip raws))"

definition parse_date :: "string list \<Rightarrow> string list" where
  "parse_date raws = map (drop 1) raws"

text \<open>
  One iteration of the loop over \<open>bid_data\<close>. Without a match of the pattern,
  \<open>match.group\<close> raises AttributeError; unpacking anything but two pieces into
  \<open>month, year\<close> raises ValueError, as does \<open>int\<close> on a piece that is no integer.
\<close>

definition bid_item_of ::
  "'dt bids_lib \<Rightarrow> 't \<Rightarrow> string
     \<Rightarrow> (string \<times> string option) \<times> (string \<times> string option) \<times> 'dt history_event list \<times> string
     \<Rightarrow> error + ('t, 'dt) bid_item" where
  "bid_item_of lib now url entry =
     (case entry of (modality_and_code, (description0, document_url), history0, date0) \<Rightarrow>
        (case url_pattern_search lib url of
           None \<Rightarrow> Inl AttributeError
         | Some (group1, group2) \<Rightarrow>
             (case py_split ''-'' group2 of
                [month0, year0] \<Rightarrow>
                  (case py_int month0 of
                     None \<Rightarrow> Inl ValueError
                   | Some m \<Rightarrow>
                       (case py_int year0 of
                          None \<Rightarrow> Inl ValueError
                        | Some y \<Rightarrow>
                            Inr \<lparr>crawled_at = now, crawled_from = url,
                                 public_agency = str_upper lib group1,
                                 bid_month = m, bid_year = y,
                                 description = description0, history = history0,
                                 codes = fst modality_and_code,
                                 modality = snd modality_and_code,
                                 session_at = from_str_to_datetime lib date0,
                                 bid_files = (if truthy document_url
                                              then Some [urljoin lib url (the document_url)]
                                              else None)\<rparr>))
              | _ \<Rightarrow> Inl ValueError)))"

definition BidsSpider_parse_page ::
  "'dt bids_lib \<Rightarrow> (nat \<Rightarrow> 't) \<Rightarrow> bids_response \<Rightarrow> ('t, 'dt) bid_item generated" where
  "BidsSpider_parse_page lib clock response =
     (let descriptions = parse_descriptions lib (br_descriptions response) in
      case parse_bids_history lib (br_bids_history response) of
        Inl e \<Rightarrow> ([], Some e)
      | Inr bids_history \<Rightarrow>
          (let modalities = parse_modalities (br_modalities response);
               dates = parse_date (br_date response);
               bid_data = zip modalities (zip descriptions (zip bids_history dates))
           in yield_each (\<lambda>k entry. bid_item_of lib (clock k) (br_url response) entry) 0 bid_data))"

text \<open>Whether every label of a token sequence, the tokens at the even positions that a
  value follows, is a key of \<open>mapping\<close>.\<close>

fun labels_known :: "string list \<Rightarrow> bool" where
  "labels_known (key # val # rest) = (map_of mapping key \<noteq> None \<and> labels_known rest)"
| "labels_known _ = True"

section \<open>Properties\<close>

text \<open>
  C9: the three start requests of the COVID-19 expenses spider are one and the same request,
  built from the class-level template, and its form data has no \<open>POST_FASE\<close> entry.
\<close>

theorem covid_start_requests_identical:
  "covid_start_requests =
     replicate 3 \<lparr>req_url = covid_url, formdata = covid_data, callback = ''parse'', meta = []\<rparr>
   \<and> map_of covid_data ''POST_FASE'' = None
   \<and> map (\<lambda>r. map_of (formdata r) ''POST_FASE'') covid_start_requests = [None, None, None]"
  by (simp add: covid_start_requests_def covid_start_request_def covid_data_def
      numeral_3_eq_3)


subsection \<open>Label mode\<close>

lemma map_of_inj_snd:
  assumes "distinct (map snd al)" "map_of al k = Some f" "map_of al k' = Some f"
  shows "k = k'"
proof -
  have "(k, f) \<in> set al" "(k', f) \<in> set al"
    using assms by (auto dest: map_of_SomeD)
  moreover have "inj_on snd (set al)" using assms(1) by (simp add: distinct_map)
  ultimately show ?thesis by (force simp: inj_on_def)
qed

lemma distinct_mapping_fields: "distinct (map snd mapping)"
  by (simp add: mapping_def)

lemma pop_details_flat:
  "\<forall>k \<in> set (map fst ps). map_of mapping k \<noteq> None \<Longrightarrow>
   pop_details (flat_pairs ps) fs = Inr (fs ++ map_of (rev (map field_pair ps)))"
proof (induction ps arbitrary: fs)
  case Nil then show ?case by simp
next
  case (Cons p ps)
  obtain k v where p: "p = (k, v)" by (cases p)
  from Cons.prems p obtain f where f: "map_of mapping k = Some f" by auto
  from Cons.prems have r: "\<forall>k \<in> set (map fst ps). map_of mapping k \<noteq> None" by simp
  have "pop_details (flat_pairs (p # ps)) fs = pop_details (flat_pairs ps) (fs(f \<mapsto> v))"
    using p f by simp
  also have "\<dots> = Inr (fs(f \<mapsto> v) ++ map_of (rev (map field_pair ps)))"
    by (rule Cons.IH[OF r])
  also have "fs(f \<mapsto> v) ++ map_of (rev (map field_pair ps))
           = fs ++ map_of (rev (map field_pair (p # ps)))"
    by (rule ext) (simp add: map_add_def p f field_pair_def split: option.splits)
  finally show ?case .
qed

lemma fields_distinct:
  assumes "distinct (map fst ps)" "\<forall>k \<in> set (map fst ps). map_of mapping k \<noteq> None"
  shows "distinct (map fst (map field_pair ps))"
proof -
  have "inj_on (\<lambda>k. the (map_of mapping k)) (set (map fst ps))"
  proof (rule inj_onI)
    fix a b assume a: "a \<in> set (map fst ps)" and b: "b \<in> set (map fst ps)"
      and e: "the (map_of mapping a) = the (map_of mapping b)"
    from a assms(2) have "map_of mapping a \<noteq> None" by blast
    then obtain fa where fa: "map_of mapping a = Some fa" by blast
    from b assms(2) have "map_of mapping b \<noteq> None" by blast
    then obtain fb where fb: "map_of mapping b = Some fb" by blast
    from e fa fb have "fa = fb" by simp
    with fa fb show "a = b" using map_of_inj_snd[OF distinct_mapping_fields] by blast
  qed
  moreover have "map fst (map field_pair ps) = map (\<lambda>k. the (map_of mapping k)) (map fst ps)"
    by (simp add: field_pair_def comp_def)
  ultimately show ?thesis using assms(1) by (simp only: distinct_map)
qed

lemma pop_details_perm:
  assumes "mset ps = mset qs" "distinct (map fst ps)"
    "\<forall>k \<in> set (map fst ps). map_of mapping k \<noteq> None"
  shows "pop_details (flat_pairs ps) fs = pop_details (flat_pairs qs) fs"
proof -
  have "mset (map fst ps) = mset (map fst qs)"
    by (simp only: mset_map assms(1))
  then have q1: "distinct (map fst qs)"
    using assms(2) mset_eq_imp_distinct_iff[of "map fst ps" "map fst qs"] by blast
  have "set ps = set qs" using assms(1) by (rule mset_eq_setD)
  then have q2: "\<forall>k \<in> set (map fst qs). map_of mapping k \<noteq> None"
    using assms(3) by simp
  have "map_of (rev (map field_pair ps)) = map_of (rev (map field_pair qs))"
  proof (rule map_of_inject_set[THEN iffD2])
    show "distinct (map fst (rev (map field_pair ps)))"
      using fields_distinct[OF assms(2,3)] by (simp only: rev_map[symmetric] distinct_rev)
    show "distinct (map fst (rev (map field_pair qs)))"
      using fields_distinct[OF q1 q2] by (simp only: rev_map[symmetric] distinct_rev)
    show "set (rev (map field_pair ps)) = set (rev (map field_pair qs))"
      using \<open>set ps = set qs\<close> by simp
  qed
  then show ?thesis
    by (simp only: pop_details_flat[OF assms(3)] pop_details_flat[OF q2])
qed

lemma pop_details_assigns:
  assumes "distinct (map fst ps)" "\<forall>k \<in> set (map fst ps). map_of mapping k \<noteq> None"
    "(k, v) \<in> set ps" "map_of mapping k = Some f"
  shows "(fs ++ map_of (rev (map field_pair ps))) f = Some v"
proof -
  have "(f, v) \<in> set (rev (map field_pair ps))"
    using assms(3,4) by (force simp: field_pair_def)
  moreover have "distinct (map fst (rev (map field_pair ps)))"
    using fields_distinct[OF assms(1,2)] by (simp only: rev_map[symmetric] distinct_rev)
  ultimately have "map_of (rev (map field_pair ps)) f = Some v"
    by (rule map_of_is_SomeI[rotated])
  then show ?thesis by (simp add: map_add_def)
qed

lemma pop_details_odd_kind:
  "odd (length ds) \<Longrightarrow>
   pop_details ds fs = Inl (if labels_known ds then IndexError else KeyError)"
  by (induction ds fs rule: pop_details.induct) (auto split: option.splits)

lemma pop_details_errors: "pop_details ds fs = Inl e \<Longrightarrow> e = IndexError \<or> e = KeyError"
  by (induction ds fs rule: pop_details.induct) (auto split: option.splits)

lemma payment_item_odd_kind:
  "odd (length raw_details) \<Longrightarrow>
   payment_item now source raw_headline raw_details
     = Inl (if length raw_headline < 4 \<or> labels_known (map strip raw_details)
            then IndexError else KeyError)"
  using pop_details_odd_kind[of "map strip raw_details" Map.empty]
  by (cases "length raw_headline < 4") (simp_all add: payment_item_def Let_def)

lemma payment_item_errors:
  "payment_item now source raw_headline raw_details = Inl e \<Longrightarrow> e = IndexError \<or> e = KeyError"
  using pop_details_errors[of "map strip raw_details" Map.empty]
  by (cases "length raw_headline < 4")
     (auto simp: payment_item_def Let_def split: sum.splits)

lemma payment_items_errors:
  "snd (payment_items clock k source xs) = Some e \<Longrightarrow> e = IndexError \<or> e = KeyError"
proof (induction xs arbitrary: k)
  case Nil
  then show ?case by simp
next
  case (Cons x xs)
  obtain h d where x: "x = (h, d)" by (cases x)
  show ?case
  proof (cases "payment_item (clock k) source h d")
    case (Inl e')
    with Cons.prems have "e' = e" by (simp add: x)
    with payment_item_errors[OF Inl] show ?thesis by simp
  next
    case (Inr item)
    obtain items r where g: "payment_items clock (Suc k) source xs = (items, r)"
      by (cases "payment_items clock (Suc k) source xs")
    with Cons.prems Inr have "snd (payment_items clock (Suc k) source xs) = Some e"
      by (simp add: x)
    then show ?thesis by (rule Cons.IH)
  qed
qed

lemma payment_items_stop:
  assumes "\<forall>now :: 't. payment_item now source h d = Inl e"
  shows "fst (payment_items (clock :: nat \<Rightarrow> 't) k source (before @ (h, d) # rest))
           = fst (payment_items clock k source before)
       \<and> snd (payment_items clock k source (before @ (h, d) # rest))
           = Some (case snd (payment_items clock k source before) of None \<Rightarrow> e | Some e0 \<Rightarrow> e0)"
proof (induction before arbitrary: k)
  case Nil
  show ?case using assms by simp
next
  case (Cons p before)
  obtain h' d' where p: "p = (h', d')" by (cases p)
  show ?case
  proof (cases "payment_item (clock k) source h' d'")
    case (Inl e')
    then show ?thesis by (simp add: p)
  next
    case (Inr item)
    obtain items r where
      g: "payment_items clock (Suc k) source (before @ (h, d) # rest) = (items, r)"
      by (cases "payment_items clock (Suc k) source (before @ (h, d) # rest)")
    obtain items' r' where
      g': "payment_items clock (Suc k) source before = (items', r')"
      by (cases "payment_items clock (Suc k) source before")
    from Cons.IH[of "Suc k"] g g'
    have "items = items' \<and> r = Some (case r' of None \<Rightarrow> e | Some e0 \<Rightarrow> e0)"
      by simp
    then show ?thesis by (simp add: p Inr g g')
  qed
qed

lemma zip_split_at:
  assumes "i < length hs" "i < length ds"
  shows "zip hs ds = zip (take i hs) (take i ds) @ (hs ! i, ds ! i) # drop (Suc i) (zip hs ds)"
proof -
  have "i < length (zip hs ds)" using assms by simp
  then have "zip hs ds = take i (zip hs ds) @ zip hs ds ! i # drop (Suc i) (zip hs ds)"
    by (rule id_take_nth_drop)
  then show ?thesis using assms by (simp add: take_zip)
qed

lemma payment_items_odd_block:
  assumes "i < length hs" "i < length ds" "odd (length (ds ! i))"
  shows "fst (payment_items (clock :: nat \<Rightarrow> 't) 0 source (zip hs ds))
           = fst (payment_items clock 0 source (zip (take i hs) (take i ds)))
       \<and> snd (payment_items clock 0 source (zip hs ds))
           = Some (case snd (payment_items clock 0 source (zip (take i hs) (take i ds))) of
                     None \<Rightarrow> if length (hs ! i) < 4 \<or> labels_known (map strip (ds ! i))
                              then IndexError else KeyError
                   | Some e0 \<Rightarrow> e0)"
proof -
  let ?e = "if length (hs ! i) < 4 \<or> labels_known (map strip (ds ! i))
            then IndexError else KeyError"
  have f: "\<forall>now :: 't. payment_item now source (hs ! i) (ds ! i) = Inl ?e"
    by (simp only: payment_item_odd_kind[OF assms(3)] simp_thms)
  show ?thesis
    using payment_items_stop[OF f, of clock 0 "zip (take i hs) (take i ds)"
        "drop (Suc i) (zip hs ds)"]
    by (simp only: zip_split_at[OF assms(1,2), symmetric])
qed

text \<open>
  C5, as the code has it, for \<open>parse_page\<close> of the payments spider and of the COVID-19
  expenses spider. Let a detail block that is paired with a headline have an odd number of
  tokens. Its iteration raises: IndexError when the headline has fewer than four cells or
  every label of the block is a key of \<open>mapping\<close> (the second \<open>pop\<close> finds the list
  empty), KeyError at the first label that is no key otherwise. The generator yields
  exactly the items that the blocks before that one yield, and ends with an exception,
  IndexError or KeyError: the one of an earlier block, if one raised, and the one of the
  odd block otherwise. No item is yielded for the odd block or for a block after it.
\<close>

theorem odd_details_raise:
  assumes "i < length (pr_headlines response)" "i < length (pr_details response)"
    and "odd (length (pr_details response ! i))"
  shows "payment_item now source (pr_headlines response ! i) (pr_details response ! i)
           = Inl (if length (pr_headlines response ! i) < 4
                     \<or> labels_known (map strip (pr_details response ! i))
                  then IndexError else KeyError)
       \<and> fst (PaymentsSpider_parse_page clock response)
           = fst (PaymentsSpider_parse_page clock
                   (response\<lparr>pr_headlines := take i (pr_headlines response),
                              pr_details := take i (pr_details response)\<rparr>))
       \<and> snd (PaymentsSpider_parse_page clock response)
           = Some (case snd (PaymentsSpider_parse_page clock
                              (response\<lparr>pr_headlines := take i (pr_headlines response),
                                         pr_details := take i (pr_details response)\<rparr>)) of
                     None \<Rightarrow> if length (pr_headlines response ! i) < 4
                                 \<or> labels_known (map strip (pr_details response ! i))
                              then IndexError else KeyError
                   | Some e0 \<Rightarrow> e0)
       \<and> (snd (PaymentsSpider_parse_page clock response) = Some IndexError
            \<or> snd (PaymentsSpider_parse_page clock response) = Some KeyError)
       \<and> fst (COVID19ExpensesSpider_parse_page clock response)
           = fst (COVID19ExpensesSpider_parse_page clock
                   (response\<lparr>pr_headlines := take i (pr_headlines response),
                              pr_details := take i (pr_details response)\<rparr>))
       \<and> snd (COVID19ExpensesSpider_parse_page clock response)
           = Some (case snd (COVID19ExpensesSpider_parse_page clock
                              (response\<lparr>pr_headlines := take i (pr_headlines response),
                                         pr_details := take i (pr_details response)\<rparr>)) of
                     None \<Rightarrow> if length (pr_headlines response ! i) < 4
                                 \<or> labels_known (map strip (pr_details response ! i))
                              then IndexError else KeyError
                   | Some e0 \<Rightarrow> e0)
       \<and> (snd (COVID19ExpensesSpider_parse_page clock response) = Some IndexError
            \<or> snd (COVID19ExpensesSpider_parse_page clock response) = Some KeyError)"
proof -
  have a: "payment_item now source (pr_headlines response ! i) (pr_details response ! i)
           = Inl (if length (pr_headlines response ! i) < 4
                     \<or> labels_known (map strip (pr_details response ! i))
                  then IndexError else KeyError)"
    using assms(3) by (rule payment_item_odd_kind)
  note p = payment_items_odd_block[OF assms, of clock "pr_url response"]
  note c = payment_items_odd_block[OF assms, of clock covid_source]
  have p1: "fst (PaymentsSpider_parse_page clock response)
           = fst (PaymentsSpider_parse_page clock
                   (response\<lparr>pr_headlines := take i (pr_headlines response),
                              pr_details := take i (pr_details response)\<rparr>))"
    using p[THEN conjunct1] by (simp add: PaymentsSpider_parse_page_def)
  have p2: "snd (PaymentsSpider_parse_page clock response)
           = Some (case snd (PaymentsSpider_parse_page clock
                              (response\<lparr>pr_headlines := take i (pr_headlines response),
                                         pr_details := take i (pr_details response)\<rparr>)) of
                     None \<Rightarrow> if length (pr_headlines response ! i) < 4
                                 \<or> labels_known (map strip (pr_details response ! i))
                              then IndexError else KeyError
                   | Some e0 \<Rightarrow> e0)"
    using p[THEN conjunct2] by (simp add: PaymentsSpider_parse_page_def)
  have p3: "snd (PaymentsSpider_parse_page clock response) = Some IndexError
            \<or> snd (PaymentsSpider_parse_page clock response) = Some KeyError"
  proof -
    from p2 obtain e where e: "snd (PaymentsSpider_parse_page clock response) = Some e" by blast
    then have "e = IndexError \<or> e = KeyError"
      unfolding PaymentsSpider_parse_page_def by (rule payment_items_errors)
    with e show ?thesis by blast
  qed
  have c1: "fst (COVID19ExpensesSpider_parse_page clock response)
           = fst (COVID19ExpensesSpider_parse_page clock
                   (response\<lparr>pr_headlines := take i (pr_headlines response),
                              pr_details := take i (pr_details response)\<rparr>))"
    using c[THEN conjunct1] by (simp add: COVID19ExpensesSpider_parse_page_def)
  have c2: "snd (COVID19ExpensesSpider_parse_page clock response)
           = Some (case snd (COVID19ExpensesSpider_parse_page clock
                              (response\<lparr>pr_headlines := take i (pr_headlines response),
                                         pr_details := take i (pr_details response)\<rparr>)) of
                     None \<Rightarrow> if length (pr_headlines response ! i) < 4
                                 \<or> labels_known (map strip (pr_details response ! i))
                              then IndexError else KeyError
                   | Some e0 \<Rightarrow> e0)"
    using c[THEN conjunct2] by (simp add: COVID19ExpensesSpider_parse_page_def)
  have c3: "snd (COVID19ExpensesSpider_parse_page clock response) = Some IndexError
            \<or> snd (COVID19ExpensesSpider_parse_page clock response) = Some KeyError"
  proof -
    from c2 obtain e where e: "snd (COVID19ExpensesSpider_parse_page clock response) = Some e"
      by blast
    then have "e = IndexError \<or> e = KeyError"
      unfolding COVID19ExpensesSpider_parse_page_def by (rule payment_items_errors)
    with e show ?thesis by blast
  qed
  show ?thesis
    by (rule conjI[OF a conjI[OF p1 conjI[OF p2 conjI[OF p3 conjI[OF c1 conjI[OF c2 c3]]]]]])
qed

lemmas odd_eval = PaymentsSpider_parse_page_def COVID19ExpensesSpider_parse_page_def
  payment_item_def strip_def is_space_def mapping_def

theorem odd_details_raise_witness:
  "(1 :: nat) < length [[''21/10/2019'', ''PAG'', ''ACME'', ''R$ 1,00''],
                        [''22/10/2019'', ''PAG'', ''ACME'', ''R$ 2,00''],
                        [''23/10/2019'', ''PAG'', ''ACME'', ''R$ 3,00'']]
   \<and> odd (length [''Data:'', ''22/10/2019'', ''N'' @ [c_deg] @ '':''])
   \<and> PaymentsSpider_parse_page (\<lambda>k. 100 + k)
       \<lparr>pr_url = payments_url,
        pr_headlines = [[''21/10/2019'', ''PAG'', ''ACME'', ''R$ 1,00''],
                        [''22/10/2019'', ''PAG'', ''ACME'', ''R$ 2,00''],
                        [''23/10/2019'', ''PAG'', ''ACME'', ''R$ 3,00'']],
        pr_details = [[''Data:'', ''21/10/2019''],
                      [''Data:'', ''22/10/2019'', ''N'' @ [c_deg] @ '':''],
                      [''Data:'', ''23/10/2019'']]\<rparr>
     = ([\<lparr>crawled_at = 100 :: nat, crawled_from = payments_url,
          published_at = ''21/10/2019'', phase = ''PAG'', company_or_person = ''ACME'',
          pay_value = ''R$ 1,00'', labelled = [''date'' \<mapsto> ''21/10/2019'']\<rparr>],
        Some IndexError)
   \<and> snd (PaymentsSpider_parse_page (\<lambda>k. 100 + k)
       \<lparr>pr_url = payments_url,
        pr_headlines = [[''21/10/2019'', ''PAG'', ''ACME'', ''R$ 1,00''],
                        [''22/10/2019'', ''PAG'', ''ACME'', ''R$ 2,00'']],
        pr_details = [[''Data:'', ''21/10/2019''],
                      [''Edital:'', ''7'', ''Data:'']]\<rparr>) = Some KeyError"
proof -
  let ?hs = "[[''21/10/2019'', ''PAG'', ''ACME'', ''R$ 1,00''],
              [''22/10/2019'', ''PAG'', ''ACME'', ''R$ 2,00''],
              [''23/10/2019'', ''PAG'', ''ACME'', ''R$ 3,00'']]"
  let ?ds = "[[''Data:'', ''21/10/2019''],
              [''Data:'', ''22/10/2019'', ''N'' @ [c_deg] @ '':''],
              [''Data:'', ''23/10/2019'']]"
  let ?r = "\<lparr>pr_url = payments_url, pr_headlines = ?hs, pr_details = ?ds\<rparr>"
  let ?q = "\<lparr>pr_url = payments_url,
        pr_headlines = [[''21/10/2019'', ''PAG'', ''ACME'', ''R$ 1,00''],
                        [''22/10/2019'', ''PAG'', ''ACME'', ''R$ 2,00'']],
        pr_details = [[''Data:'', ''21/10/2019''],
                      [''Edital:'', ''7'', ''Data:'']]\<rparr>"
  have h1: "(1 :: nat) < length (pr_headlines ?r)" "(1 :: nat) < length (pr_details ?r)"
    "odd (length (pr_details ?r ! 1))"
    by simp_all
  have h2: "(1 :: nat) < length (pr_headlines ?q)" "(1 :: nat) < length (pr_details ?q)"
    "odd (length (pr_details ?q ! 1))"
    by simp_all
  have b: "PaymentsSpider_parse_page (\<lambda>k. 100 + k)
       (?r\<lparr>pr_headlines := take 1 (pr_headlines ?r), pr_details := take 1 (pr_details ?r)\<rparr>)
     = ([\<lparr>crawled_at = 100 :: nat, crawled_from = payments_url,
          published_at = ''21/10/2019'', phase = ''PAG'', company_or_person = ''ACME'',
          pay_value = ''R$ 1,00'', labelled = [''date'' \<mapsto> ''21/10/2019'']\<rparr>], None)"
    by (simp add: odd_eval)
  have k1: "labels_known (map strip (pr_details ?r ! 1))"
    by (simp add: odd_eval)
  have k2: "\<not> labels_known (map strip (pr_details ?q ! 1))"
    "\<not> length (pr_headlines ?q ! 1) < 4"
    by (simp_all add: odd_eval)
  have b2: "snd (PaymentsSpider_parse_page (\<lambda>k. 100 + k)
       (?q\<lparr>pr_headlines := take 1 (pr_headlines ?q), pr_details := take 1 (pr_details ?q)\<rparr>))
     = None"
    by (simp add: odd_eval)
  note t = odd_details_raise[OF h1, where clock = "\<lambda>k. 100 + k"]
  note u = odd_details_raise[OF h2, where clock = "\<lambda>k. 100 + k"]
  have r1: "fst (PaymentsSpider_parse_page (\<lambda>k. 100 + k) ?r)
     = [\<lparr>crawled_at = 100 :: nat, crawled_from = payments_url,
          published_at = ''21/10/2019'', phase = ''PAG'', company_or_person = ''ACME'',
          pay_value = ''R$ 1,00'', labelled = [''date'' \<mapsto> ''21/10/2019'']\<rparr>]"
    using t[THEN conjunct2, THEN conjunct1] by (simp only: b fst_conv)
  have r2: "snd (PaymentsSpider_parse_page (\<lambda>k. 100 + k) ?r) = Some IndexError"
    using t[THEN conjunct2, THEN conjunct2, THEN conjunct1] k1
    by (simp only: b snd_conv option.case if_True simp_thms)
  have r3: "snd (PaymentsSpider_parse_page (\<lambda>k. 100 + k) ?q) = Some KeyError"
    using u[THEN conjunct2, THEN conjunct2, THEN conjunct1] k2
    by (simp only: b2 option.case if_False simp_thms)
  have r: "PaymentsSpider_parse_page (\<lambda>k. 100 + k) ?r
     = ([\<lparr>crawled_at = 100 :: nat, crawled_from = payments_url,
          published_at = ''21/10/2019'', phase = ''PAG'', company_or_person = ''ACME'',
          pay_value = ''R$ 1,00'', labelled = [''date'' \<mapsto> ''21/10/2019'']\<rparr>],
        Some IndexError)"
    using r1 r2 by (simp add: prod_eq_iff)
  have l: "(1 :: nat) < length ?hs" "odd (length [''Data:'', ''22/10/2019'', ''N'' @ [c_deg] @ '':''])"
    by simp_all
  show ?thesis by (rule conjI[OF l(1) conjI[OF l(2) conjI[OF r r3]]])
qed

text \<open>
  C5 as stated fails: on a page whose only detail block has three tokens the generator
  yields no record at all and ends with IndexError.
\<close>

theorem odd_details_counterexample:
  "PaymentsSpider_parse_page (\<lambda>k. k)
     \<lparr>pr_url = ''http://www.transparencia.feiradesantana.ba.gov.br/controller/despesa.php'',
      pr_headlines = [[''22/10/2019'', ''PAG'', ''ACME'', ''R$ 1,00'']],
      pr_details = [[''Data:'', ''22/10/2019'', ''N'' @ [c_deg] @ '':'']]\<rparr>
   = ([], Some IndexError)"
  by (simp add: PaymentsSpider_parse_page_def payment_item_def mapping_def strip_def is_space_def)

text \<open>
  C6, as the code has it: when the labels of the pairs are pairwise distinct and all in
  \<open>mapping\<close>, every reordering of the pairs gives the same assignment of fields, in which
  each pair's value is stored under the field of its label.
\<close>

theorem label_order_insignificant:
  assumes "mset ps = mset qs" "distinct (map fst ps)"
    "\<forall>k \<in> set (map fst ps). map_of mapping k \<noteq> None"
  shows "pop_details (flat_pairs ps) assigned = pop_details (flat_pairs qs) assigned
       \<and> (\<exists>m. pop_details (flat_pairs ps) assigned = Inr m
              \<and> (\<forall>(k, v) \<in> set ps. \<forall>f. map_of mapping k = Some f \<longrightarrow> m f = Some v))"
proof -
  have "pop_details (flat_pairs ps) assigned = pop_details (flat_pairs qs) assigned"
    using assms by (rule pop_details_perm)
  moreover have "pop_details (flat_pairs ps) assigned
      = Inr (assigned ++ map_of (rev (map field_pair ps)))"
    using assms(3) by (rule pop_details_flat)
  moreover have "\<forall>(k, v) \<in> set ps. \<forall>f. map_of mapping k = Some f \<longrightarrow>
      (assigned ++ map_of (rev (map field_pair ps))) f = Some v"
    using pop_details_assigns[OF assms(2,3)] by blast
  ultimately show ?thesis by blast
qed

theorem label_order_insignificant_witness:
  "mset [(''Data:'', ''22/10/2019''), (''N'' @ [c_deg] @ '':'', ''19000215/0004'')]
     = mset [(''N'' @ [c_deg] @ '':'', ''19000215/0004''), (''Data:'', ''22/10/2019'')]
   \<and> distinct (map fst [(''Data:'', ''22/10/2019''), (''N'' @ [c_deg] @ '':'', ''19000215/0004'')])
   \<and> pop_details [''Data:'', ''22/10/2019'', ''N'' @ [c_deg] @ '':'', ''19000215/0004''] Map.empty
       = pop_details [''N'' @ [c_deg] @ '':'', ''19000215/0004'', ''Data:'', ''22/10/2019''] Map.empty
   \<and> pop_details [''Data:'', ''22/10/2019'', ''N'' @ [c_deg] @ '':'', ''19000215/0004''] Map.empty
       = Inr [''date'' \<mapsto> ''22/10/2019'', ''number'' \<mapsto> ''19000215/0004'']"
  using label_order_insignificant[of
      "[(''Data:'', ''22/10/2019''), (''N'' @ [c_deg] @ '':'', ''19000215/0004'')]"
      "[(''N'' @ [c_deg] @ '':'', ''19000215/0004''), (''Data:'', ''22/10/2019'')]" Map.empty]
  by (simp add: mapping_def)

text \<open>
  C6 as stated fails when a label occurs twice: the later pair overwrites the earlier one,
  so swapping the two pairs changes the value stored.
\<close>

theorem label_order_counterexample:
  "mset [(''Data:'', ''22/10/2019''), (''Data:'', ''23/10/2019'')]
     = mset [(''Data:'', ''23/10/2019''), (''Data:'', ''22/10/2019'')]
   \<and> map_of mapping ''Data:'' = Some ''date''
   \<and> pop_details [''Data:'', ''22/10/2019'', ''Data:'', ''23/10/2019''] Map.empty
       = Inr [''date'' \<mapsto> ''23/10/2019'']
   \<and> pop_details [''Data:'', ''23/10/2019'', ''Data:'', ''22/10/2019''] Map.empty
       = Inr [''date'' \<mapsto> ''22/10/2019'']
   \<and> pop_details [''Data:'', ''22/10/2019'', ''Data:'', ''23/10/2019''] Map.empty
       \<noteq> pop_details [''Data:'', ''23/10/2019'', ''Data:'', ''22/10/2019''] Map.empty"
  by (auto simp: mapping_def dest: fun_cong[where x = "''date''"])

subsection \<open>The link-date gate\<close>

lemmas gate_eval = follow_this_date_def extract_param_spec_def url_query_def py_split_def
  py_int_def is_int_space_def is_digit_def digit_value_def mk_date_def c_int_def
  valid_date_def days_in_month_def date_le_def date_less_def

lemma py_int_separators:
  "py_int ([CHR 0x1C] @ ''7'') = None \<and> py_int (''7'' @ [CHR 0x1F]) = None
   \<and> py_int ([CHR 0xA0] @ '' 7'' @ [CHR 0x09]) = Some 7"
  by (simp add: py_int_def is_int_space_def is_digit_def digit_value_def)

lemma follow_this_date_wellformed:
  assumes "extract_param url ''dt'' = Some dt" "py_split ''-'' dt = ms # ys # rest"
    "py_int ms = Some m" "py_int ys = Some y" "1 \<le> m" "m \<le> 12" "1 \<le> y" "y \<le> 9999"
  shows "follow_this_date extract_param start_date url
       = Inr (date_le start_date \<lparr>year = y, month = m, day = 1\<rparr>)"
proof -
  have "mk_date y m 1 = Inr \<lparr>year = y, month = m, day = 1\<rparr>"
    using assms(5-8) by (simp add: mk_date_def c_int_def valid_date_def days_in_month_def)
  then show ?thesis using assms(1-4) by (simp add: follow_this_date_def)
qed

lemma follow_this_date_returns:
  assumes "follow_this_date extract_param start_date url = Inr b"
  shows "\<exists>dt ms ys rest m y.
             extract_param url ''dt'' = Some dt \<and> py_split ''-'' dt = ms # ys # rest
             \<and> py_int ms = Some m \<and> py_int ys = Some y
             \<and> 1 \<le> m \<and> m \<le> 12 \<and> 1 \<le> y \<and> y \<le> 9999"
proof -
  from assms obtain dt where dt: "extract_param url ''dt'' = Some dt"
    by (auto simp: follow_this_date_def split: option.splits)
  from assms dt have len: "\<not> length (py_split ''-'' dt) < 2"
    by (auto simp: follow_this_date_def Let_def split: if_splits)
  then obtain ms ys rest where sp: "py_split ''-'' dt = ms # ys # rest"
    by (cases "py_split ''-'' dt"; cases "tl (py_split ''-'' dt)") auto
  from assms dt sp obtain y where y: "py_int ys = Some y"
    by (auto simp: follow_this_date_def Let_def split: option.splits)
  from assms dt sp y obtain m where m: "py_int ms = Some m"
    by (auto simp: follow_this_date_def Let_def split: option.splits)
  from assms dt sp y m have "\<exists>d. mk_date y m 1 = Inr d"
    by (auto simp: follow_this_date_def Let_def split: sum.splits)
  then have "1 \<le> m \<and> m \<le> 12 \<and> 1 \<le> y \<and> y \<le> 9999"
    by (auto simp: mk_date_def valid_date_def split: if_splits)
  with dt sp y m show ?thesis by blast
qed

text \<open>
  C2, as the code has it. Without a \<open>dt\<close> value the gate raises AttributeError. It returns
  a truth value exactly when the value splits at \<open>-\<close> into at least two pieces of which the
  first is an integer literal for a month from 1 to 12 and the second one for a year from 1
  to 9999 (the pieces after the second are ignored), and raises in every other case. For a
  start date that is the first day of its month, the value returned is whether that
  month/year is the start date's month/year or a later one.
\<close>

theorem follow_this_date_gate:
  "(extract_param url ''dt'' = None \<longrightarrow>
      follow_this_date extract_param start_date url = Inl AttributeError)
    \<and> (\<forall>dt ms ys rest m y.
          extract_param url ''dt'' = Some dt \<and> py_split ''-'' dt = ms # ys # rest
          \<and> py_int ms = Some m \<and> py_int ys = Some y
          \<and> 1 \<le> m \<and> m \<le> 12 \<and> 1 \<le> y \<and> y \<le> 9999
          \<and> day start_date = 1
          \<longrightarrow> follow_this_date extract_param start_date url
                = Inr (year start_date < y \<or> year start_date = y \<and> month start_date \<le> m))
    \<and> ((\<exists>b. follow_this_date extract_param start_date url = Inr b) \<longleftrightarrow>
          (\<exists>dt ms ys rest m y.
             extract_param url ''dt'' = Some dt \<and> py_split ''-'' dt = ms # ys # rest
             \<and> py_int ms = Some m \<and> py_int ys = Some y
             \<and> 1 \<le> m \<and> m \<le> 12 \<and> 1 \<le> y \<and> y \<le> 9999))"
proof (intro conjI allI impI iffI)
  assume "extract_param url ''dt'' = None"
  then show "follow_this_date extract_param start_date url = Inl AttributeError"
    by (simp add: follow_this_date_def)
next
  fix dt ms ys rest m y
  assume a: "extract_param url ''dt'' = Some dt \<and> py_split ''-'' dt = ms # ys # rest
          \<and> py_int ms = Some m \<and> py_int ys = Some y
          \<and> 1 \<le> m \<and> m \<le> 12 \<and> 1 \<le> y \<and> y \<le> 9999
          \<and> day start_date = 1"
  then have "follow_this_date extract_param start_date url
       = Inr (date_le start_date \<lparr>year = y, month = m, day = 1\<rparr>)"
    using follow_this_date_wellformed[of extract_param url dt ms ys rest m y start_date] by blast
  moreover have "date_le start_date \<lparr>year = y, month = m, day = 1\<rparr>
       = (year start_date < y \<or> year start_date = y \<and> month start_date \<le> m)"
    using a by (cases start_date) (auto simp: date_le_def date_less_def)
  ultimately show "follow_this_date extract_param start_date url
                = Inr (year start_date < y \<or> year start_date = y \<and> month start_date \<le> m)"
    by simp
next
  assume "\<exists>b. follow_this_date extract_param start_date url = Inr b"
  then show "\<exists>dt ms ys rest m y.
             extract_param url ''dt'' = Some dt \<and> py_split ''-'' dt = ms # ys # rest
             \<and> py_int ms = Some m \<and> py_int ys = Some y
             \<and> 1 \<le> m \<and> m \<le> 12 \<and> 1 \<le> y \<and> y \<le> 9999"
    using follow_this_date_returns by blast
next
  assume "\<exists>dt ms ys rest m y.
             extract_param url ''dt'' = Some dt \<and> py_split ''-'' dt = ms # ys # rest
             \<and> py_int ms = Some m \<and> py_int ys = Some y
             \<and> 1 \<le> m \<and> m \<le> 12 \<and> 1 \<le> y \<and> y \<le> 9999"
  then obtain dt ms ys rest m y where w:
    "extract_param url ''dt'' = Some dt" "py_split ''-'' dt = ms # ys # rest"
    "py_int ms = Some m" "py_int ys = Some y" "1 \<le> m" "m \<le> 12" "1 \<le> y" "y \<le> 9999"
    by blast
  from follow_this_date_wellformed[of extract_param url, OF w]
  show "\<exists>b. follow_this_date extract_param start_date url = Inr b" by blast
qed

theorem follow_this_date_gate_witness:
  "extract_param_spec
       ''http://www.feiradesantana.ba.gov.br/seadm/licitacoes_pm.asp?cat=PMFS&dt=08-2020#links''
       ''dt'' = Some ''08-2020''
   \<and> py_split ''-'' ''08-2020'' = [''08'', ''2020'']
   \<and> py_int ''08'' = Some 8 \<and> py_int ''2020'' = Some 2020
   \<and> follow_this_date extract_param_spec \<lparr>year = 2020, month = 1, day = 1\<rparr>
       ''http://www.feiradesantana.ba.gov.br/seadm/licitacoes_pm.asp?cat=PMFS&dt=08-2020#links''
       = Inr True
   \<and> follow_this_date extract_param_spec \<lparr>year = 2021, month = 1, day = 1\<rparr>
       ''http://www.feiradesantana.ba.gov.br/seadm/licitacoes_pm.asp?cat=PMFS&dt=08-2020#links''
       = Inr False
   \<and> extract_param_spec ''http://www.feiradesantana.ba.gov.br/seadm/licitacoes.asp'' ''dt'' = None
   \<and> follow_this_date extract_param_spec \<lparr>year = 2020, month = 1, day = 1\<rparr>
       ''http://www.feiradesantana.ba.gov.br/seadm/licitacoes.asp'' = Inl AttributeError
   \<and> py_int (''08'' @ [CHR 0x1F]) = None
   \<and> follow_this_date extract_param_spec \<lparr>year = 2020, month = 1, day = 1\<rparr>
       (''http://www.feiradesantana.ba.gov.br/seadm/licitacoes_pm.asp?cat=PMFS&dt=08''
          @ [CHR 0x1F] @ ''-2020'') = Inl ValueError
   \<and> follow_this_date extract_param_spec \<lparr>year = 2020, month = 1, day = 1\<rparr>
       ''http://www.feiradesantana.ba.gov.br/seadm/licitacoes_pm.asp?cat=PMFS&dt=13-2020''
       = Inl ValueError
   \<and> follow_this_date extract_param_spec \<lparr>year = 2020, month = 1, day = 1\<rparr>
       ''http://www.feiradesantana.ba.gov.br/seadm/licitacoes_pm.asp?cat=PMFS&dt=082020''
       = Inl IndexError"
proof -
  let ?u = "''http://www.feiradesantana.ba.gov.br/seadm/licitacoes_pm.asp?cat=PMFS&dt=08-2020#links''"
  let ?v = "''http://www.feiradesantana.ba.gov.br/seadm/licitacoes.asp''"
  have h: "extract_param_spec ?u ''dt'' = Some ''08-2020''
      \<and> py_split ''-'' ''08-2020'' = [''08'', ''2020'']
      \<and> py_int ''08'' = Some 8 \<and> py_int ''2020'' = Some 2020
      \<and> (1::int) \<le> 8 \<and> (8::int) \<le> 12 \<and> (1::int) \<le> 2020 \<and> (2020::int) \<le> 9999"
    by (simp add: gate_eval)
  have n: "extract_param_spec ?v ''dt'' = None"
    by (simp add: gate_eval)
  note b = follow_this_date_gate[THEN conjunct2, THEN conjunct1, rule_format,
      of extract_param_spec ?u "''08-2020''" "''08''" "''2020''" "[]" 8 2020]
  have a: "follow_this_date extract_param_spec \<lparr>year = 2020, month = 1, day = 1\<rparr> ?u = Inr True"
    using b[of "\<lparr>year = 2020, month = 1, day = 1\<rparr>"] h by simp
  have c: "follow_this_date extract_param_spec \<lparr>year = 2021, month = 1, day = 1\<rparr> ?u = Inr False"
    using b[of "\<lparr>year = 2021, month = 1, day = 1\<rparr>"] h by simp
  have d: "follow_this_date extract_param_spec \<lparr>year = 2020, month = 1, day = 1\<rparr> ?v
      = Inl AttributeError"
    using follow_this_date_gate[THEN conjunct1, rule_format, of extract_param_spec ?v] n by simp
  have e: "py_int (''08'' @ [CHR 0x1F]) = None
   \<and> follow_this_date extract_param_spec \<lparr>year = 2020, month = 1, day = 1\<rparr>
       (''http://www.feiradesantana.ba.gov.br/seadm/licitacoes_pm.asp?cat=PMFS&dt=08''
          @ [CHR 0x1F] @ ''-2020'') = Inl ValueError
   \<and> follow_this_date extract_param_spec \<lparr>year = 2020, month = 1, day = 1\<rparr>
       ''http://www.feiradesantana.ba.gov.br/seadm/licitacoes_pm.asp?cat=PMFS&dt=13-2020''
       = Inl ValueError
   \<and> follow_this_date extract_param_spec \<lparr>year = 2020, month = 1, day = 1\<rparr>
       ''http://www.feiradesantana.ba.gov.br/seadm/licitacoes_pm.asp?cat=PMFS&dt=082020''
       = Inl IndexError"
    by (simp add: gate_eval)
  from h n a c d e show ?thesis by simp
qed

text \<open>
  C2 as stated fails: the malformed token \<open>08-2020-31\<close> is accepted without an
  exception.
\<close>

theorem follow_this_date_gate_counterexample:
  "extract_param_spec
       ''http://www.feiradesantana.ba.gov.br/seadm/licitacoes_pm.asp?cat=PMFS&dt=08-2020-31#links''
       ''dt'' = Some ''08-2020-31''
   \<and> follow_this_date extract_param_spec \<lparr>year = 2020, month = 1, day = 1\<rparr>
       ''http://www.feiradesantana.ba.gov.br/seadm/licitacoes_pm.asp?cat=PMFS&dt=08-2020-31#links''
     = Inr True"
  by (simp add: gate_eval)

subsection \<open>The pagination walker\<close>

lemma meta_page_requests_ok:
  "map_of rmeta ''data'' = Some d \<Longrightarrow>
   snd (meta_page_requests u rmeta n ps) = None
   \<and> map post_pagina (fst (meta_page_requests u rmeta n ps)) = map (\<lambda>p. Some (py_str p)) ps
   \<and> map callback (fst (meta_page_requests u rmeta n ps)) = map (\<lambda>p. ''parse_page'') ps
   \<and> map req_url (fst (meta_page_requests u rmeta n ps)) = map (\<lambda>p. u) ps"
proof (induction ps arbitrary: rmeta d)
  case Nil
  show ?case by simp
next
  case (Cons p ps)
  let ?data = "AList.update ''POST_PAGINAS'' (py_str n) (AList.update ''POST_PAGINA'' (py_str p) d)"
  let ?m = "AList.update ''data'' ?data rmeta"
  have m: "map_of ?m ''data'' = Some ?data" by (simp add: update_conv')
  obtain rs e where g: "meta_page_requests u ?m n ps = (rs, e)"
    by (cases "meta_page_requests u ?m n ps")
  from Cons.IH[OF m] g have ih: "e = None \<and> map post_pagina rs = map (\<lambda>p. Some (py_str p)) ps
     \<and> map callback rs = map (\<lambda>p. ''parse_page'') ps \<and> map req_url rs = map (\<lambda>p. u) ps"
    by simp
  have pp: "post_pagina \<lparr>req_url = u, formdata = ?data, callback = ''parse_page'', meta = []\<rparr>
      = Some (py_str p)"
    by (simp add: post_pagina_def update_conv')
  show ?case using Cons.prems g ih pp by (simp add: Let_def)
qed


lemma last_page_of_cases:
  "last_page_of [] = Inr None"
  "length pages = 1 \<Longrightarrow> last_page_of pages = Inl IndexError"
  "2 \<le> length pages \<Longrightarrow> py_int (pages ! (length pages - 2)) = None
     \<Longrightarrow> last_page_of pages = Inl ValueError"
  "2 \<le> length pages \<Longrightarrow> py_int (pages ! (length pages - 2)) = Some n
     \<Longrightarrow> last_page_of pages = Inr (Some n)"
  by (auto simp: last_page_of_def)

text \<open>
  C3, as the code has it, for ContractsSpider.parse and PaymentsSpider.parse. Without
  pagination entries no request is yielded. With at least two entries of which the
  second-to-last is the integer literal of \<open>last_page\<close>, the requests yielded are those of
  the pages 1 to \<open>last_page\<close>, in order, and no exception ends the generator. A single
  entry raises IndexError and a second-to-last entry that is no integer literal raises
  ValueError, before any request is yielded.
\<close>

theorem pagination_walker:
  fixes response :: listing_response
  defines "pages \<equiv> pagination response"
  shows "(pages = [] \<longrightarrow> ContractsSpider_parse response = ([], None)
                        \<and> PaymentsSpider_parse response = ([], None))
    \<and> (length pages = 1 \<longrightarrow> ContractsSpider_parse response = ([], Some IndexError)
                        \<and> PaymentsSpider_parse response = ([], Some IndexError))
    \<and> (2 \<le> length pages \<and> py_int (pages ! (length pages - 2)) = None
          \<longrightarrow> ContractsSpider_parse response = ([], Some ValueError)
              \<and> PaymentsSpider_parse response = ([], Some ValueError))
    \<and> (\<forall>last_page data.
          2 \<le> length pages \<and> py_int (pages ! (length pages - 2)) = Some last_page
          \<and> map_of (response_meta response) ''data'' = Some data
          \<longrightarrow> snd (ContractsSpider_parse response) = None
              \<and> map post_pagina (fst (ContractsSpider_parse response))
                  = map (\<lambda>page. Some (py_str page)) [1..last_page]
              \<and> snd (PaymentsSpider_parse response) = None
              \<and> map post_pagina (fst (PaymentsSpider_parse response))
                  = map (\<lambda>page. Some (py_str page)) [1..last_page])"
  unfolding pages_def ContractsSpider_parse_def PaymentsSpider_parse_def meta_parse_def
  by (auto simp: last_page_of_cases meta_page_requests_ok)

lemmas walker_eval = ContractsSpider_parse_def PaymentsSpider_parse_def meta_parse_def
  last_page_of_def py_int_def is_int_space_def strip_def is_space_def is_digit_def digit_value_def

text \<open>
  C3 as stated fails: when the second-to-last entry is not a number, the walker does not fall
  back to a single page but ends with ValueError.
\<close>

theorem pagination_walker_counterexample:
  "ContractsSpider_parse
     \<lparr>pagination = [[CHR 0xAB] @ '' Anterior'', ''1'', ''...'', ''Pr'' @ [c_o_acute] @ ''ximo '' @ [CHR 0xBB]],
      response_meta = [(''data'', contracts_data)]\<rparr>
   = ([], Some ValueError)"
  by (simp add: walker_eval)

theorem pagination_walker_witness:
  "py_int ([[CHR 0xAB] @ '' Prev'', ''1'', ''2'', ''7'', ''Next '' @ [CHR 0xBB]] ! (5 - 2)) = Some 7
   \<and> map post_pagina (fst (ContractsSpider_parse
        \<lparr>pagination = [[CHR 0xAB] @ '' Prev'', ''1'', ''2'', ''7'', ''Next '' @ [CHR 0xBB]],
         response_meta = [(''data'', contracts_data)]\<rparr>))
      = [Some ''1'', Some ''2'', Some ''3'', Some ''4'', Some ''5'', Some ''6'', Some ''7'']
   \<and> snd (ContractsSpider_parse
        \<lparr>pagination = [[CHR 0xAB] @ '' Prev'', ''1'', ''2'', ''7'', ''Next '' @ [CHR 0xBB]],
         response_meta = [(''data'', contracts_data)]\<rparr>) = None
   \<and> ContractsSpider_parse \<lparr>pagination = [], response_meta = [(''data'', contracts_data)]\<rparr>
      = ([], None)
   \<and> py_int ([CHR 0x1C] @ ''7'') = None
   \<and> ContractsSpider_parse
        \<lparr>pagination = [[CHR 0x1C] @ ''7'', ''Next''],
         response_meta = [(''data'', contracts_data)]\<rparr> = ([], Some ValueError)
   \<and> ContractsSpider_parse
        \<lparr>pagination = [''7''], response_meta = [(''data'', contracts_data)]\<rparr>
      = ([], Some IndexError)"
proof -
  let ?v = "\<lparr>pagination = [[CHR 0x1C] @ ''7'', ''Next''],
         response_meta = [(''data'', contracts_data)]\<rparr>"
  let ?w = "\<lparr>pagination = [''7''], response_meta = [(''data'', contracts_data)]\<rparr>"
  have hv: "2 \<le> length (pagination ?v)
      \<and> py_int (pagination ?v ! (length (pagination ?v) - 2)) = None"
    by (simp add: py_int_def is_int_space_def is_digit_def digit_value_def)
  have v: "ContractsSpider_parse ?v = ([], Some ValueError)"
    using pagination_walker[of ?v, THEN conjunct2, THEN conjunct2, THEN conjunct1] hv by blast
  have w: "ContractsSpider_parse ?w = ([], Some IndexError)"
    using pagination_walker[of ?w, THEN conjunct2, THEN conjunct1] by simp
  have i: "py_int ([CHR 0x1C] @ ''7'') = None"
    by (simp add: py_int_def is_int_space_def is_digit_def digit_value_def)
  let ?r = "\<lparr>pagination = [[CHR 0xAB] @ '' Prev'', ''1'', ''2'', ''7'', ''Next '' @ [CHR 0xBB]],
         response_meta = [(''data'', contracts_data)]\<rparr>"
  have h: "2 \<le> length (pagination ?r)
      \<and> py_int (pagination ?r ! (length (pagination ?r) - 2)) = Some 7
      \<and> map_of (response_meta ?r) ''data'' = Some contracts_data"
    by (simp add: py_int_def is_int_space_def is_digit_def digit_value_def)
  have s: "map (\<lambda>page. Some (py_str page)) [1..7]
      = [Some ''1'', Some ''2'', Some ''3'', Some ''4'', Some ''5'', Some ''6'', Some ''7'']"
    by code_simp
  note t = pagination_walker[of ?r, THEN conjunct2, THEN conjunct2, THEN conjunct2, rule_format,
      of 7 contracts_data]
  have a: "map post_pagina (fst (ContractsSpider_parse ?r))
      = [Some ''1'', Some ''2'', Some ''3'', Some ''4'', Some ''5'', Some ''6'', Some ''7'']
    \<and> snd (ContractsSpider_parse ?r) = None"
    using t h s by simp
  have b: "ContractsSpider_parse \<lparr>pagination = [], response_meta = [(''data'', contracts_data)]\<rparr>
      = ([], None)"
    using pagination_walker[of "\<lparr>pagination = [], response_meta = [(''data'', contracts_data)]\<rparr>",
        THEN conjunct1] by simp
  from h a b i v w show ?thesis by simp
qed

subsection \<open>The date windows\<close>

lemma valid_next_day:
  "valid_date d \<Longrightarrow> d \<noteq> \<lparr>year = 9999, month = 12, day = 31\<rparr> \<Longrightarrow> valid_date (next_day d)"
  by (cases d) (auto simp: valid_date_def next_day_def days_in_month_def split: if_splits)

lemma less_next_day: "valid_date d \<Longrightarrow> date_less d (next_day d)"
  by (cases d) (auto simp: valid_date_def next_day_def date_less_def split: if_splits)

lemma next_day_le:
  "valid_date d \<Longrightarrow> valid_date e \<Longrightarrow> date_less d e \<Longrightarrow> date_le (next_day d) e"
  by (cases d; cases e)
     (auto simp: valid_date_def next_day_def date_less_def date_le_def split: if_splits)

lemma date_less_not_max:
  "valid_date e \<Longrightarrow> date_less d e \<Longrightarrow> d \<noteq> \<lparr>year = 9999, month = 12, day = 31\<rparr>"
  by (cases d; cases e) (auto simp: valid_date_def date_less_def days_in_month_def split: if_splits)

lemma date_less_trans: "date_less a b \<Longrightarrow> date_less b c \<Longrightarrow> date_less a c"
  by (auto simp: date_less_def)

lemma date_less_irrefl: "\<not> date_less a a"
  by (simp add: date_less_def)

lemma date_le_less_trans: "date_le a b \<Longrightarrow> date_less b c \<Longrightarrow> date_less a c"
  by (auto simp: date_le_def intro: date_less_trans)

lemma date_less_le_trans: "date_less a b \<Longrightarrow> date_le b c \<Longrightarrow> date_less a c"
  by (auto simp: date_le_def intro: date_less_trans)

lemma day_loop_step:
  assumes "valid_date today" "date_less d today"
  shows "day_loop body d today =
     (body d # fst (day_loop body (next_day d) today), snd (day_loop body (next_day d) today))"
proof -
  have "add_day d = Inr (next_day d)"
    using date_less_not_max[OF assms] by (simp add: add_day_def)
  then show ?thesis
    using assms(2) by (subst day_loop.simps) (simp split: prod.splits)
qed

lemma day_loop_stop: "\<not> date_less d today \<Longrightarrow> day_loop body d today = ([], None)"
  by (subst day_loop.simps) simp

lemma windows_step:
  "valid_date today \<Longrightarrow> date_less d today \<Longrightarrow>
   windows d today = d # windows (next_day d) today"
  by (simp add: windows_def day_loop_step)

lemma windows_stop: "\<not> date_less d today \<Longrightarrow> windows d today = []"
  by (simp add: windows_def day_loop_stop)

lemma day_loop_map:
  "valid_date today \<Longrightarrow> day_loop body d today = (map body (windows d today), None)"
proof (induction body d today rule: day_loop.induct)
  case (1 body d today)
  show ?case
  proof (cases "date_less d today")
    case False
    then show ?thesis by (simp add: day_loop_stop windows_stop)
  next
    case True
    have nm: "add_day d = Inr (next_day d)"
      using date_less_not_max[OF "1.prems"(1) True] by (simp add: add_day_def)
    have ih: "day_loop body (next_day d) today = (map body (windows (next_day d) today), None)"
      using "1.IH"[OF True nm "1.prems"] .
    show ?thesis
      by (simp add: day_loop_step[OF "1.prems" True] windows_step[OF "1.prems" True] ih)
  qed
qed

lemma windows_props:
  fixes body :: "date \<Rightarrow> unit"
  shows "valid_date d \<Longrightarrow> valid_date today \<Longrightarrow>
     (\<forall>x \<in> set (windows d today). valid_date x \<and> date_le d x \<and> date_less x today)
   \<and> (\<forall>x. valid_date x \<and> date_le d x \<and> date_less x today \<longrightarrow> x \<in> set (windows d today))
   \<and> successively (\<lambda>a b. b = next_day a) (windows d today)
   \<and> (windows d today \<noteq> [] \<longrightarrow> hd (windows d today) = d)
   \<and> sorted_wrt date_less (windows d today)"
proof (induction body d today rule: day_loop.induct)
  case (1 body d today)
  show ?case
  proof (cases "date_less d today")
    case False
    then have "windows d today = []" by (rule windows_stop)
    moreover have "\<And>x. \<not> (date_le d x \<and> date_less x today)"
      using False by (blast dest: date_le_less_trans)
    ultimately show ?thesis by simp
  next
    case True
    let ?n = "next_day d"
    let ?ws = "windows ?n today"
    have nmax: "d \<noteq> \<lparr>year = 9999, month = 12, day = 31\<rparr>"
      using date_less_not_max[OF "1.prems"(2) True] .
    have nm: "add_day d = Inr ?n" using nmax by (simp add: add_day_def)
    have v: "valid_date ?n" using valid_next_day[OF "1.prems"(1) nmax] .
    note ih0 = "1.IH"[OF True nm v "1.prems"(2)]
    note ih1 = ih0[THEN conjunct1]
    note ih2 = ih0[THEN conjunct2, THEN conjunct1]
    note ih3 = ih0[THEN conjunct2, THEN conjunct2, THEN conjunct1]
    note ih4 = ih0[THEN conjunct2, THEN conjunct2, THEN conjunct2, THEN conjunct1]
    note ih5 = ih0[THEN conjunct2, THEN conjunct2, THEN conjunct2, THEN conjunct2]
    have ws: "windows d today = d # ?ws" using windows_step[OF "1.prems"(2) True] .
    have dn: "date_less d ?n" using less_next_day[OF "1.prems"(1)] .
    have a: "\<forall>x \<in> set (d # ?ws). valid_date x \<and> date_le d x \<and> date_less x today"
    proof
      fix x assume "x \<in> set (d # ?ws)"
      then consider "x = d" | "x \<in> set ?ws" by auto
      then show "valid_date x \<and> date_le d x \<and> date_less x today"
      proof cases
        case 1 then show ?thesis using "1.prems"(1) True by (simp add: date_le_def)
      next
        case 2
        with ih1 have "valid_date x \<and> date_le ?n x \<and> date_less x today" by blast
        then show ?thesis using dn by (auto simp: date_le_def intro: date_less_trans)
      qed
    qed
    have b: "\<forall>x. valid_date x \<and> date_le d x \<and> date_less x today \<longrightarrow> x \<in> set (d # ?ws)"
    proof (intro allI impI)
      fix x assume x: "valid_date x \<and> date_le d x \<and> date_less x today"
      show "x \<in> set (d # ?ws)"
      proof (cases "x = d")
        case True then show ?thesis by simp
      next
        case False
        with x have "date_less d x" by (auto simp: date_le_def)
        then have "date_le ?n x" using next_day_le[OF "1.prems"(1)] x by blast
        with x ih2 show ?thesis by simp
      qed
    qed
    have c: "successively (\<lambda>a b. b = next_day a) (d # ?ws)"
      using ih3 ih4 by (auto simp: successively_Cons)
    have e: "sorted_wrt date_less (d # ?ws)"
    proof -
      have "\<forall>x \<in> set ?ws. date_less d x"
        using ih1 dn by (blast intro: date_less_le_trans)
      with ih5 show ?thesis by simp
    qed
    have f: "d # ?ws \<noteq> [] \<longrightarrow> hd (d # ?ws) = d" by simp
    show ?thesis unfolding ws by (rule conjI[OF a conjI[OF b conjI[OF c conjI[OF f e]]]])
  qed
qed

lemma successively_nth:
  "successively P xs \<Longrightarrow> Suc i < length xs \<Longrightarrow> P (xs ! i) (xs ! Suc i)"
proof (induction xs arbitrary: i)
  case Nil then show ?case by simp
next
  case (Cons x xs)
  show ?case
  proof (cases i)
    case 0
    with Cons.prems show ?thesis by (cases xs) auto
  next
    case (Suc j)
    with Cons.prems have "successively P xs" "Suc j < length xs"
      by (auto simp: successively_Cons)
    from Cons.IH[OF this] Suc show ?thesis by simp
  qed
qed

lemma sorted_wrt_date_less_distinct: "sorted_wrt date_less xs \<Longrightarrow> distinct xs"
  by (induction xs) (auto simp: date_less_irrefl)

text \<open>
  C4: for a start date and a current date of the calendar, both \<open>start_requests\<close> yield
  one request per day of \<open>windows\<close> and end without an exception. The days queried are
  exactly the calendar days from the start date up to, not including, today, each once and in
  ascending order; each is followed by the next day of the calendar, so that the window of a
  day ends where the window of the next day starts; and there is none when the start date
  is today or later.
\<close>

theorem date_windows:
  assumes "valid_date start_date" "valid_date today"
  shows "ContractsSpider_start_requests start_date today
           = (map (day_request contracts_url contracts_data) (windows start_date today), None)
       \<and> PaymentsSpider_start_requests start_date today
           = (map (day_request payments_url payments_data) (windows start_date today), None)
       \<and> set (windows start_date today)
           = {d. valid_date d \<and> date_le start_date d \<and> date_less d today}
       \<and> distinct (windows start_date today)
       \<and> sorted_wrt date_less (windows start_date today)
       \<and> (\<forall>i. Suc i < length (windows start_date today) \<longrightarrow>
              windows start_date today ! Suc i = next_day (windows start_date today ! i))
       \<and> (date_le today start_date \<longrightarrow> windows start_date today = [])"
proof -
  note p = windows_props[OF assms]
  have a: "ContractsSpider_start_requests start_date today
           = (map (day_request contracts_url contracts_data) (windows start_date today), None)"
    by (simp add: ContractsSpider_start_requests_def day_loop_map[OF assms(2)])
  have b: "PaymentsSpider_start_requests start_date today
           = (map (day_request payments_url payments_data) (windows start_date today), None)"
    by (simp add: PaymentsSpider_start_requests_def day_loop_map[OF assms(2)])
  have c: "set (windows start_date today)
           = {d. valid_date d \<and> date_le start_date d \<and> date_less d today}"
  proof (rule set_eqI)
    fix x
    show "x \<in> set (windows start_date today)
       \<longleftrightarrow> x \<in> {d. valid_date d \<and> date_le start_date d \<and> date_less d today}"
      using p[THEN conjunct1] p[THEN conjunct2, THEN conjunct1] by blast
  qed
  have s: "sorted_wrt date_less (windows start_date today)"
    using p[THEN conjunct2, THEN conjunct2, THEN conjunct2, THEN conjunct2] .
  have d: "distinct (windows start_date today)" using s by (rule sorted_wrt_date_less_distinct)
  have e: "\<forall>i. Suc i < length (windows start_date today) \<longrightarrow>
              windows start_date today ! Suc i = next_day (windows start_date today ! i)"
    using successively_nth[OF p[THEN conjunct2, THEN conjunct2, THEN conjunct1]] by blast
  have f: "date_le today start_date \<longrightarrow> windows start_date today = []"
  proof
    assume "date_le today start_date"
    then have "\<not> date_less start_date today"
      by (auto simp: date_le_def date_less_def)
    then show "windows start_date today = []" by (rule windows_stop)
  qed
  show ?thesis by (rule conjI[OF a conjI[OF b conjI[OF c conjI[OF d conjI[OF s conjI[OF e f]]]]]])
qed


theorem date_windows_witness:
  "valid_date \<lparr>year = 2020, month = 2, day = 27\<rparr> \<and> valid_date \<lparr>year = 2020, month = 3, day = 2\<rparr>
   \<and> windows \<lparr>year = 2020, month = 2, day = 27\<rparr> \<lparr>year = 2020, month = 3, day = 2\<rparr>
       = [\<lparr>year = 2020, month = 2, day = 27\<rparr>, \<lparr>year = 2020, month = 2, day = 28\<rparr>,
          \<lparr>year = 2020, month = 2, day = 29\<rparr>, \<lparr>year = 2020, month = 3, day = 1\<rparr>]
   \<and> map (\<lambda>r. map_of (formdata r) ''POST_DATA'')
         (fst (ContractsSpider_start_requests \<lparr>year = 2020, month = 2, day = 27\<rparr>
                 \<lparr>year = 2020, month = 3, day = 2\<rparr>))
       = [Some ''27/02/2020 - 27/02/2020'', Some ''28/02/2020 - 28/02/2020'',
          Some ''29/02/2020 - 29/02/2020'', Some ''01/03/2020 - 01/03/2020'']
   \<and> snd (ContractsSpider_start_requests \<lparr>year = 2020, month = 2, day = 27\<rparr>
                 \<lparr>year = 2020, month = 3, day = 2\<rparr>) = None
   \<and> windows \<lparr>year = 2020, month = 3, day = 2\<rparr> \<lparr>year = 2020, month = 3, day = 2\<rparr> = []"
proof -
  let ?s = "\<lparr>year = 2020, month = 2, day = 27\<rparr>"
  let ?t = "\<lparr>year = 2020, month = 3, day = 2\<rparr>"
  have v: "valid_date ?s" "valid_date ?t"
    by (simp_all add: valid_date_def days_in_month_def is_leap_def)
  have w: "windows ?s ?t
       = [\<lparr>year = 2020, month = 2, day = 27\<rparr>, \<lparr>year = 2020, month = 2, day = 28\<rparr>,
          \<lparr>year = 2020, month = 2, day = 29\<rparr>, \<lparr>year = 2020, month = 3, day = 1\<rparr>]"
    by code_simp
  have m: "map (\<lambda>r. map_of (formdata r) ''POST_DATA'')
         (map (day_request contracts_url contracts_data)
          [\<lparr>year = 2020, month = 2, day = 27\<rparr>, \<lparr>year = 2020, month = 2, day = 28\<rparr>,
          \<lparr>year = 2020, month = 2, day = 29\<rparr>, \<lparr>year = 2020, month = 3, day = 1\<rparr>])
       = [Some ''27/02/2020 - 27/02/2020'', Some ''28/02/2020 - 28/02/2020'',
          Some ''29/02/2020 - 29/02/2020'', Some ''01/03/2020 - 01/03/2020'']"
    by code_simp
  note t = date_windows[OF v]
  have a: "ContractsSpider_start_requests ?s ?t
      = (map (day_request contracts_url contracts_data) (windows ?s ?t), None)"
    using t by (rule conjunct1)
  have e: "windows ?t ?t = []"
    using date_windows[OF v(2) v(2)] by (simp add: date_le_def)
  show ?thesis using v w m a e by simp
qed

subsection \<open>The modality classifier\<close>

lemma py_in_iff: "py_in needle hay \<longleftrightarrow> (\<exists>before after. hay = before @ needle @ after)"
proof (induction hay)
  case Nil
  show ?case by auto
next
  case (Cons c cs)
  show ?case
  proof
    assume "py_in needle (c # cs)"
    then consider "prefix needle (c # cs)" | "py_in needle cs" by auto
    then show "\<exists>before after. c # cs = before @ needle @ after"
    proof cases
      case 1
      then obtain after where "c # cs = needle @ after" by (auto simp: prefix_def)
      then have "c # cs = [] @ needle @ after" by simp
      then show ?thesis by blast
    next
      case 2
      with Cons.IH obtain before after where "cs = before @ needle @ after" by blast
      then have "c # cs = (c # before) @ needle @ after" by simp
      then show ?thesis by blast
    qed
  next
    assume "\<exists>before after. c # cs = before @ needle @ after"
    then obtain before after where e: "c # cs = before @ needle @ after" by blast
    show "py_in needle (c # cs)"
    proof (cases before)
      case Nil
      with e have "prefix needle (c # cs)" by (simp add: prefix_def)
      then show ?thesis by simp
    next
      case (Cons b bs)
      with e have "cs = bs @ needle @ after" by simp
      with Cons.IH have "py_in needle cs" by blast
      then show ?thesis by simp
    qed
  qed
qed

lemma lower_code_idem:
  "n < 256 \<Longrightarrow> lower_code (strip_code (lower_code n)) = strip_code (lower_code n)"
  unfolding lower_code_def strip_code_def by (simp split: if_splits)

lemma lower_code_less: "n < 256 \<Longrightarrow> lower_code n < 256"
  unfolding lower_code_def by simp

lemma strip_code_less: "n < 256 \<Longrightarrow> strip_code n < 256"
  unfolding strip_code_def by simp

lemma of_char_less: "(of_char c :: nat) < 256"
  by (cases c) (simp add: of_char_of) 

lemma py_lower_strip_accents:
  "py_lower (strip_accents (py_lower s)) = strip_accents (py_lower s)"
proof -
  have "char_of (lower_code (of_char (char_of (strip_code (of_char
          (char_of (lower_code (of_char c) :: nat) :: char)) :: nat) :: char)) :: nat)
      = (char_of (strip_code (of_char (char_of (lower_code (of_char c) :: nat) :: char)) :: nat) :: char)"
    for c :: char
  proof -
    let ?n = "of_char c :: nat"
    have n: "?n < 256" by (rule of_char_less)
    have l: "lower_code ?n < 256" using n by (rule lower_code_less)
    have s: "strip_code (lower_code ?n) < 256" using l by (rule strip_code_less)
    show ?thesis using l s lower_code_idem[OF n] by simp
  qed
  then show ?thesis by (simp add: py_lower_def strip_accents_def)
qed

lemma char_eq_char_of: "c = char_of n \<longleftrightarrow> of_char c = take_bit 8 (n :: nat)"
  using char_of_eq_iff[of n c] by auto

lemmas norm_eval = py_lower_def lower_code_def strip_accents_def strip_code_def char_of_eq_iff
  char_eq_char_of

lemma get_modality_first_match:
  "get_modality (Some text0) = first_match modality_table (strip_accents (py_lower text0))"
  unfolding get_modality_def Let_def py_lower_strip_accents first_match_def modality_table_def
  by simp

text \<open>
  C7, as the code has it. \<open>get_modality\<close> is the first match of the ordered keyword table
  against the lower-cased, accent-stripped text, a keyword matching when it occurs in the text
  as a contiguous substring (\<open>py_in_iff\<close>). So a text with \<open>tomada\<close> is classified
  \<open>tomada_de_precos\<close>; a text with the phrase \<open>pregao eletronico\<close> and with neither
  \<open>tomada\<close> nor \<open>pregao presencial\<close> is classified \<open>pregao_eletronico\<close>; and a text
  that no keyword matches gets \<open>None\<close>, the function's only value for "unknown".
\<close>

theorem modality_classifier:
  "get_modality None = None
   \<and> get_modality (Some text0) = first_match modality_table (strip_accents (py_lower text0))
   \<and> (py_in ''tomada'' (strip_accents (py_lower text0))
        \<longrightarrow> get_modality (Some text0) = Some ''tomada_de_precos'')
   \<and> (py_in ''pregao eletronico'' (strip_accents (py_lower text0))
        \<and> \<not> py_in ''tomada'' (strip_accents (py_lower text0))
        \<and> \<not> py_in ''pregao presencial'' (strip_accents (py_lower text0))
        \<longrightarrow> get_modality (Some text0) = Some ''pregao_eletronico'')
   \<and> ((\<forall>entry \<in> set modality_table. \<not> py_in (fst entry) (strip_accents (py_lower text0)))
        \<longrightarrow> get_modality (Some text0) = None)"
proof -
  have a: "get_modality None = None" by (simp add: get_modality_def)
  note b = get_modality_first_match[of text0]
  have c: "py_in ''tomada'' (strip_accents (py_lower text0))
        \<longrightarrow> get_modality (Some text0) = Some ''tomada_de_precos''"
    unfolding b by (simp add: first_match_def modality_table_def)
  have d: "py_in ''pregao eletronico'' (strip_accents (py_lower text0))
        \<and> \<not> py_in ''tomada'' (strip_accents (py_lower text0))
        \<and> \<not> py_in ''pregao presencial'' (strip_accents (py_lower text0))
        \<longrightarrow> get_modality (Some text0) = Some ''pregao_eletronico''"
    unfolding b by (simp add: first_match_def modality_table_def)
  have e: "(\<forall>entry \<in> set modality_table. \<not> py_in (fst entry) (strip_accents (py_lower text0)))
        \<longrightarrow> get_modality (Some text0) = None"
    unfolding b by (simp add: first_match_def modality_table_def)
  show ?thesis by (rule conjI[OF a conjI[OF b conjI[OF c conjI[OF d e]]]])
qed

theorem modality_classifier_witness:
  "py_in ''tomada'' (strip_accents (py_lower (''Tomada de Pre'' @ [c_c_cedil] @ ''o'')))
   \<and> get_modality (Some (''Tomada de Pre'' @ [c_c_cedil] @ ''o'')) = Some ''tomada_de_precos''
   \<and> py_in ''pregao eletronico''
        (strip_accents (py_lower (''PREG'' @ [CHR 0xC3] @ ''O ELETR'' @ [CHR 0xD4] @ ''NICO 12/2020'')))
   \<and> get_modality (Some (''PREG'' @ [CHR 0xC3] @ ''O ELETR'' @ [CHR 0xD4] @ ''NICO 12/2020''))
       = Some ''pregao_eletronico''
   \<and> list_all (\<lambda>entry. \<not> py_in (fst entry) (strip_accents (py_lower ''Edital 7'')))
        modality_table
   \<and> get_modality (Some ''Edital 7'') = None"
proof -
  let ?a = "''Tomada de Pre'' @ [c_c_cedil] @ ''o''"
  let ?b = "''PREG'' @ [CHR 0xC3] @ ''O ELETR'' @ [CHR 0xD4] @ ''NICO 12/2020''"
  have na: "strip_accents (py_lower ?a) = ''tomada de preco''" by (simp add: norm_eval)
  have nb: "strip_accents (py_lower ?b) = ''pregao eletronico 12/2020''" by (simp add: norm_eval)
  have nc: "strip_accents (py_lower ''Edital 7'') = ''edital 7''" by (simp add: norm_eval)
  have ha: "py_in ''tomada'' (strip_accents (py_lower ?a))" unfolding na by simp
  have hb: "py_in ''pregao eletronico'' (strip_accents (py_lower ?b))
        \<and> \<not> py_in ''tomada'' (strip_accents (py_lower ?b))
        \<and> \<not> py_in ''pregao presencial'' (strip_accents (py_lower ?b))"
    unfolding nb by simp
  have hc: "\<forall>entry \<in> set modality_table. \<not> py_in (fst entry) (strip_accents (py_lower ''Edital 7''))"
    unfolding nc by (simp add: modality_table_def)
  note ta = modality_classifier[of ?a, THEN conjunct2, THEN conjunct2, THEN conjunct1, rule_format]
  note tb = modality_classifier[of ?b, THEN conjunct2, THEN conjunct2, THEN conjunct2,
      THEN conjunct1, rule_format]
  note tc = modality_classifier[of "''Edital 7''", THEN conjunct2, THEN conjunct2, THEN conjunct2,
      THEN conjunct2, THEN mp]
  have a: "get_modality (Some ?a) = Some ''tomada_de_precos''" using ha by (rule ta)
  have b: "get_modality (Some ?b) = Some ''pregao_eletronico''" using hb by (rule tb)
  have c: "get_modality (Some ''Edital 7'') = None" using hc by (rule tc)
  have hc': "list_all (\<lambda>entry. \<not> py_in (fst entry) (strip_accents (py_lower ''Edital 7'')))
        modality_table"
    using hc by (simp only: list_all_iff)
  show ?thesis
    by (rule conjI[OF ha conjI[OF a conjI[OF hb[THEN conjunct1] conjI[OF b conjI[OF hc' c]]]]])
qed

text \<open>
  C7 as stated fails: a text can contain both words without the phrase
  \<open>pregao eletronico\<close>, and is then not classified or, as here with
  \<open>pregao presencial\<close> before it in the table, classified otherwise.
\<close>

theorem modality_classifier_counterexample:
  "py_in (''preg'' @ [c_a_tilde] @ ''o'') (''preg'' @ [c_a_tilde] @ ''o (eletr'' @ [c_o_circ] @ ''nico)'')
   \<and> py_in (''eletr'' @ [c_o_circ] @ ''nico'') (''preg'' @ [c_a_tilde] @ ''o (eletr'' @ [c_o_circ] @ ''nico)'')
   \<and> get_modality (Some (''preg'' @ [c_a_tilde] @ ''o (eletr'' @ [c_o_circ] @ ''nico)'')) = None
   \<and> py_in (''preg'' @ [c_a_tilde] @ ''o'')
        (''preg'' @ [c_a_tilde] @ ''o presencial e eletr'' @ [c_o_circ] @ ''nico'')
   \<and> py_in (''eletr'' @ [c_o_circ] @ ''nico'')
        (''preg'' @ [c_a_tilde] @ ''o presencial e eletr'' @ [c_o_circ] @ ''nico'')
   \<and> get_modality (Some (''preg'' @ [c_a_tilde] @ ''o presencial e eletr'' @ [c_o_circ] @ ''nico''))
       = Some ''pregao_presencial''"
proof -
  let ?a = "''preg'' @ [c_a_tilde] @ ''o (eletr'' @ [c_o_circ] @ ''nico)''"
  let ?b = "''preg'' @ [c_a_tilde] @ ''o presencial e eletr'' @ [c_o_circ] @ ''nico''"
  have na: "strip_accents (py_lower ?a) = ''pregao (eletronico)''" by (simp add: norm_eval)
  have nb: "strip_accents (py_lower ?b) = ''pregao presencial e eletronico''"
    by (simp add: norm_eval)
  have a: "get_modality (Some ?a) = None"
    unfolding get_modality_first_match na by (simp add: first_match_def modality_table_def)
  have b: "get_modality (Some ?b) = Some ''pregao_presencial''"
    unfolding get_modality_first_match nb by (simp add: first_match_def modality_table_def)
  have c: "py_in (''preg'' @ [c_a_tilde] @ ''o'') ?a" "py_in (''eletr'' @ [c_o_circ] @ ''nico'') ?a"
    "py_in (''preg'' @ [c_a_tilde] @ ''o'') ?b" "py_in (''eletr'' @ [c_o_circ] @ ''nico'') ?b"
    by simp_all
  show ?thesis by (rule conjI[OF c(1) conjI[OF c(2) conjI[OF a conjI[OF c(3) conjI[OF c(4) b]]]]])
qed

subsection \<open>Provenance of the items\<close>

lemma yield_each_fields:
  assumes "\<And>k x item. step k x = Inr item \<Longrightarrow> f item = g k"
  shows "map f (fst (yield_each step k xs))
       = map g [k ..< k + length (fst (yield_each step k xs))]"
proof (induction xs arbitrary: k)
  case Nil
  show ?case by simp
next
  case (Cons x xs)
  show ?case
  proof (cases "step k x")
    case (Inl e)
    then show ?thesis by simp
  next
    case (Inr item)
    obtain items e where g: "yield_each step (Suc k) xs = (items, e)"
      by (cases "yield_each step (Suc k) xs")
    from Cons.IH[of "Suc k"] g have ih: "map f items = map g [Suc k ..< Suc k + length items]"
      by simp
    have "[k ..< k + Suc (length items)] = k # [Suc k ..< Suc k + length items]"
      by (simp add: upt_rec)
    then show ?thesis using Inr g ih assms[OF Inr] by simp
  qed
qed

lemma payment_items_fields:
  "map crawled_from (fst (payment_items clock k source xs))
     = replicate (length (fst (payment_items clock k source xs))) source
   \<and> map crawled_at (fst (payment_items clock k source xs))
     = map clock [k ..< k + length (fst (payment_items clock k source xs))]"
proof (induction xs arbitrary: k)
  case Nil
  show ?case by simp
next
  case (Cons x xs)
  obtain h d where x: "x = (h, d)" by (cases x)
  show ?case
  proof (cases "payment_item (clock k) source h d")
    case (Inl e)
    then show ?thesis by (simp add: x)
  next
    case (Inr item)
    obtain items e where g: "payment_items clock (Suc k) source xs = (items, e)"
      by (cases "payment_items clock (Suc k) source xs")
    from Cons.IH[of "Suc k"] g have ih: "map crawled_from items = replicate (length items) source"
      "map crawled_at items = map clock [Suc k ..< Suc k + length items]"
      by simp_all
    have i: "crawled_from item = source \<and> crawled_at item = clock k"
      using Inr by (auto simp: payment_item_def Let_def split: if_splits sum.splits)
    have "[k ..< k + Suc (length items)] = k # [Suc k ..< Suc k + length items]"
      by (simp add: upt_rec)
    then show ?thesis using Inr g ih i by (simp add: x)
  qed
qed

lemma contract_item_fields:
  "contract_item idf now url h n = Inr item \<Longrightarrow> crawled_from item = url \<and> crawled_at item = now"
  by (auto simp: contract_item_def Let_def split: if_splits option.splits)

lemma bid_item_of_fields:
  "bid_item_of lib now url entry = Inr item \<Longrightarrow> crawled_from item = url \<and> crawled_at item = now"
  by (auto simp: bid_item_of_def split: prod.splits option.splits list.splits)

lemma yield_each_provenance:
  assumes "\<And>k x item. step k x = Inr item \<Longrightarrow> crawled_from item = url \<and> crawled_at item = clock k"
  shows "map crawled_from (fst (yield_each step 0 xs))
           = replicate (length (fst (yield_each step 0 xs))) url
       \<and> map crawled_at (fst (yield_each step 0 xs))
           = map clock [0 ..< length (fst (yield_each step 0 xs))]"
proof -
  have "map crawled_from (fst (yield_each step 0 xs))
      = map (\<lambda>_. url) [0 ..< 0 + length (fst (yield_each step 0 xs))]"
    by (rule yield_each_fields) (simp add: assms)
  moreover have "map crawled_at (fst (yield_each step 0 xs))
      = map clock [0 ..< 0 + length (fst (yield_each step 0 xs))]"
    by (rule yield_each_fields) (simp add: assms)
  ultimately show ?thesis by (simp add: map_replicate_const)
qed

text \<open>
  C1, as the code has it. Every item that \<open>parse_page\<close> of the bids, contracts and
  payments spiders yields has the URL of the response in \<open>crawled_from\<close>; every item of
  the COVID-19 expenses spider has the spider's fixed \<open>source\<close> address there. In all four
  spiders \<open>crawled_at\<close> of the item of iteration \<open>k\<close> is the clock reading taken in that
  iteration.
\<close>

theorem provenance_fields:
  "map crawled_from (fst (BidsSpider_parse_page lib clock bids))
     = replicate (length (fst (BidsSpider_parse_page lib clock bids))) (br_url bids)
   \<and> map crawled_at (fst (BidsSpider_parse_page lib clock bids))
     = map clock [0 ..< length (fst (BidsSpider_parse_page lib clock bids))]
   \<and> map crawled_from (fst (ContractsSpider_parse_page idf clock contracts))
     = replicate (length (fst (ContractsSpider_parse_page idf clock contracts))) (cr_url contracts)
   \<and> map crawled_at (fst (ContractsSpider_parse_page idf clock contracts))
     = map clock [0 ..< length (fst (ContractsSpider_parse_page idf clock contracts))]
   \<and> map crawled_from (fst (PaymentsSpider_parse_page clock payments))
     = replicate (length (fst (PaymentsSpider_parse_page clock payments))) (pr_url payments)
   \<and> map crawled_at (fst (PaymentsSpider_parse_page clock payments))
     = map clock [0 ..< length (fst (PaymentsSpider_parse_page clock payments))]
   \<and> map crawled_from (fst (COVID19ExpensesSpider_parse_page clock payments))
     = replicate (length (fst (COVID19ExpensesSpider_parse_page clock payments))) covid_source
   \<and> map crawled_at (fst (COVID19ExpensesSpider_parse_page clock payments))
     = map clock [0 ..< length (fst (COVID19ExpensesSpider_parse_page clock payments))]"
proof -
  have b: "map crawled_from (fst (BidsSpider_parse_page lib clock bids))
     = replicate (length (fst (BidsSpider_parse_page lib clock bids))) (br_url bids)
   \<and> map crawled_at (fst (BidsSpider_parse_page lib clock bids))
     = map clock [0 ..< length (fst (BidsSpider_parse_page lib clock bids))]"
  proof (cases "parse_bids_history lib (br_bids_history bids)")
    case (Inl e)
    then show ?thesis by (simp add: BidsSpider_parse_page_def)
  next
    case (Inr bids_history)
    show ?thesis
      unfolding BidsSpider_parse_page_def Let_def Inr sum.case
      by (rule yield_each_provenance) (rule bid_item_of_fields)
  qed
  have c: "map crawled_from (fst (ContractsSpider_parse_page idf clock contracts))
     = replicate (length (fst (ContractsSpider_parse_page idf clock contracts))) (cr_url contracts)
   \<and> map crawled_at (fst (ContractsSpider_parse_page idf clock contracts))
     = map clock [0 ..< length (fst (ContractsSpider_parse_page idf clock contracts))]"
    unfolding ContractsSpider_parse_page_def
    by (rule yield_each_provenance) (auto dest: contract_item_fields)
  have p: "map crawled_from (fst (PaymentsSpider_parse_page clock payments))
     = replicate (length (fst (PaymentsSpider_parse_page clock payments))) (pr_url payments)
   \<and> map crawled_at (fst (PaymentsSpider_parse_page clock payments))
     = map clock [0 ..< length (fst (PaymentsSpider_parse_page clock payments))]"
    unfolding PaymentsSpider_parse_page_def
    using payment_items_fields[of clock 0 "pr_url payments"] by simp
  have v: "map crawled_from (fst (COVID19ExpensesSpider_parse_page clock payments))
     = replicate (length (fst (COVID19ExpensesSpider_parse_page clock payments))) covid_source
   \<and> map crawled_at (fst (COVID19ExpensesSpider_parse_page clock payments))
     = map clock [0 ..< length (fst (COVID19ExpensesSpider_parse_page clock payments))]"
    unfolding COVID19ExpensesSpider_parse_page_def
    using payment_items_fields[of clock 0 covid_source] by simp
  show ?thesis
    by (rule conjI[OF b[THEN conjunct1] conjI[OF b[THEN conjunct2] conjI[OF c[THEN conjunct1]
          conjI[OF c[THEN conjunct2] conjI[OF p[THEN conjunct1] conjI[OF p[THEN conjunct2] v]]]]]])
qed


lemmas page_eval = PaymentsSpider_parse_page_def COVID19ExpensesSpider_parse_page_def
  payment_item_def strip_def is_space_def covid_source_def covid_url_def mapping_def

theorem provenance_fields_witness:
  "fst (PaymentsSpider_parse_page (\<lambda>k. 100 + k)
     \<lparr>pr_url = payments_url,
      pr_headlines = [[''22/10/2019'', ''PAG'', ''ACME'', ''R$ 1,00''],
                      [''23/10/2019'', ''EMP'', ''ACME'', ''R$ 2,00'']],
      pr_details = [[''Data:'', ''22/10/2019''], []]\<rparr>)
   = [\<lparr>crawled_at = 100, crawled_from = payments_url,
       published_at = ''22/10/2019'', phase = ''PAG'', company_or_person = ''ACME'',
       pay_value = ''R$ 1,00'', labelled = [''date'' \<mapsto> ''22/10/2019'']\<rparr>,
      \<lparr>crawled_at = 101, crawled_from = payments_url,
       published_at = ''23/10/2019'', phase = ''EMP'', company_or_person = ''ACME'',
       pay_value = ''R$ 2,00'', labelled = Map.empty\<rparr>]
   \<and> map crawled_from (fst (PaymentsSpider_parse_page (\<lambda>k. 100 + k)
     \<lparr>pr_url = payments_url,
      pr_headlines = [[''22/10/2019'', ''PAG'', ''ACME'', ''R$ 1,00''],
                      [''23/10/2019'', ''EMP'', ''ACME'', ''R$ 2,00'']],
      pr_details = [[''Data:'', ''22/10/2019''], []]\<rparr>)) = [payments_url, payments_url]
   \<and> map crawled_at (fst (PaymentsSpider_parse_page (\<lambda>k. 100 + k)
     \<lparr>pr_url = payments_url,
      pr_headlines = [[''22/10/2019'', ''PAG'', ''ACME'', ''R$ 1,00''],
                      [''23/10/2019'', ''EMP'', ''ACME'', ''R$ 2,00'']],
      pr_details = [[''Data:'', ''22/10/2019''], []]\<rparr>)) = [100, 101 :: nat]"
proof -
  let ?r = "\<lparr>pr_url = payments_url,
      pr_headlines = [[''22/10/2019'', ''PAG'', ''ACME'', ''R$ 1,00''],
                      [''23/10/2019'', ''EMP'', ''ACME'', ''R$ 2,00'']],
      pr_details = [[''Data:'', ''22/10/2019''], []]\<rparr>"
  have e: "fst (PaymentsSpider_parse_page (\<lambda>k. 100 + k) ?r)
   = [\<lparr>crawled_at = 100, crawled_from = payments_url,
       published_at = ''22/10/2019'', phase = ''PAG'', company_or_person = ''ACME'',
       pay_value = ''R$ 1,00'', labelled = [''date'' \<mapsto> ''22/10/2019'']\<rparr>,
      \<lparr>crawled_at = 101, crawled_from = payments_url,
       published_at = ''23/10/2019'', phase = ''EMP'', company_or_person = ''ACME'',
       pay_value = ''R$ 2,00'', labelled = Map.empty\<rparr>]"
    by (simp add: page_eval)
  note t = provenance_fields[where clock = "\<lambda>k. 100 + k" and payments = ?r]
  have a: "map crawled_from (fst (PaymentsSpider_parse_page (\<lambda>k. 100 + k) ?r))
      = [payments_url, payments_url]"
    using t[THEN conjunct2, THEN conjunct2, THEN conjunct2, THEN conjunct2, THEN conjunct1]
    by (simp add: e numeral_2_eq_2)
  have b: "map crawled_at (fst (PaymentsSpider_parse_page (\<lambda>k. 100 + k) ?r)) = [100, 101 :: nat]"
    using t[THEN conjunct2, THEN conjunct2, THEN conjunct2, THEN conjunct2, THEN conjunct2,
        THEN conjunct1]
    by (simp add: e)
  show ?thesis by (rule conjI[OF e conjI[OF a b]])
qed

text \<open>
  C1 as stated fails for the COVID-19 expenses spider: the response comes from the
  controller address, the item names the index page.
\<close>

theorem provenance_fields_counterexample:
  "map crawled_from (fst (COVID19ExpensesSpider_parse_page (\<lambda>k. k)
     \<lparr>pr_url = covid_url,
      pr_headlines = [[''22/10/2019'', ''PAG'', ''ACME'', ''R$ 1,00'']],
      pr_details = [[''Data:'', ''22/10/2019'']]\<rparr>)) = [covid_source]
   \<and> covid_source \<noteq> covid_url"
  by (simp add: page_eval)

subsection \<open>Repeated extraction\<close>

lemma yield_each_upto:
  assumes "\<And>k x. map_sum id h (step_a k x) = map_sum id h (step_b k x)"
  shows "map h (fst (yield_each step_a k xs)) = map h (fst (yield_each step_b k xs))
       \<and> snd (yield_each step_a k xs) = snd (yield_each step_b k xs)"
proof (induction xs arbitrary: k)
  case Nil
  show ?case by simp
next
  case (Cons x xs)
  obtain is1 e1 where g1: "yield_each step_a (Suc k) xs = (is1, e1)"
    by (cases "yield_each step_a (Suc k) xs")
  obtain is2 e2 where g2: "yield_each step_b (Suc k) xs = (is2, e2)"
    by (cases "yield_each step_b (Suc k) xs")
  from Cons.IH[of "Suc k"] g1 g2 have ih: "map h is1 = map h is2" "e1 = e2" by simp_all
  show ?case
  proof (cases "step_a k x")
    case (Inl e)
    with assms[of k x] have "step_b k x = Inl e" by (cases "step_b k x") simp_all
    with Inl show ?thesis by simp
  next
    case (Inr i1)
    with assms[of k x] obtain i2 where "step_b k x = Inr i2" "h i1 = h i2"
      by (cases "step_b k x") simp_all
    with Inr g1 g2 ih show ?thesis by simp
  qed
qed

lemma contract_item_clock:
  "map_sum id (\<lambda>item. item\<lparr>crawled_at := c\<rparr>) (contract_item idf t1 url h n)
   = map_sum id (\<lambda>item. item\<lparr>crawled_at := c\<rparr>) (contract_item idf t2 url h n)"
  by (simp add: contract_item_def Let_def split: option.splits)

lemma bid_item_of_clock:
  "map_sum id (\<lambda>item. item\<lparr>crawled_at := c\<rparr>) (bid_item_of lib t1 url entry)
   = map_sum id (\<lambda>item. item\<lparr>crawled_at := c\<rparr>) (bid_item_of lib t2 url entry)"
  by (simp add: bid_item_of_def split: prod.splits option.splits list.splits)

text \<open>
  C8, as the code has it: two runs of \<open>parse_page\<close> on the same response, of the bids
  spider or of the contracts spider, yield the same number of items, equal in every field
  but \<open>crawled_at\<close>, and end in the same way; \<open>crawled_at\<close> holds the clock readings of
  each run.
\<close>

theorem extraction_repeatable:
  "map (\<lambda>item. item\<lparr>crawled_at := c\<rparr>) (fst (BidsSpider_parse_page lib clock_a bids))
     = map (\<lambda>item. item\<lparr>crawled_at := c\<rparr>) (fst (BidsSpider_parse_page lib clock_b bids))
   \<and> snd (BidsSpider_parse_page lib clock_a bids) = snd (BidsSpider_parse_page lib clock_b bids)
   \<and> map (\<lambda>item. item\<lparr>crawled_at := c\<rparr>) (fst (ContractsSpider_parse_page idf clock_a contracts))
     = map (\<lambda>item. item\<lparr>crawled_at := c\<rparr>) (fst (ContractsSpider_parse_page idf clock_b contracts))
   \<and> snd (ContractsSpider_parse_page idf clock_a contracts)
     = snd (ContractsSpider_parse_page idf clock_b contracts)"
proof -
  have b: "map (\<lambda>item. item\<lparr>crawled_at := c\<rparr>) (fst (BidsSpider_parse_page lib clock_a bids))
     = map (\<lambda>item. item\<lparr>crawled_at := c\<rparr>) (fst (BidsSpider_parse_page lib clock_b bids))
   \<and> snd (BidsSpider_parse_page lib clock_a bids) = snd (BidsSpider_parse_page lib clock_b bids)"
  proof (cases "parse_bids_history lib (br_bids_history bids)")
    case (Inl e)
    then show ?thesis by (simp add: BidsSpider_parse_page_def)
  next
    case (Inr bids_history)
    show ?thesis
      unfolding BidsSpider_parse_page_def Let_def Inr sum.case
      by (rule yield_each_upto) (rule bid_item_of_clock)
  qed
  have k: "map (\<lambda>item. item\<lparr>crawled_at := c\<rparr>) (fst (ContractsSpider_parse_page idf clock_a contracts))
     = map (\<lambda>item. item\<lparr>crawled_at := c\<rparr>) (fst (ContractsSpider_parse_page idf clock_b contracts))
   \<and> snd (ContractsSpider_parse_page idf clock_a contracts)
     = snd (ContractsSpider_parse_page idf clock_b contracts)"
    unfolding ContractsSpider_parse_page_def
    by (rule yield_each_upto) (simp add: contract_item_clock split: prod.splits)
  show ?thesis
    by (rule conjI[OF b[THEN conjunct1] conjI[OF b[THEN conjunct2] k]])
qed

lemmas contract_eval = ContractsSpider_parse_page_def contract_item_def clean_details_def
  labels_def strip_def is_space_def py_split_def contracts_base_url_def

lemmas bids_eval = BidsSpider_parse_page_def parse_descriptions_def parse_description_def
  isspace_def truthy_def parse_modalities_def py_replace_def parse_date_def bid_item_of_def
  py_int_def is_int_space_def is_digit_def digit_value_def py_split_def strip_def is_space_def get_modality_def
  norm_eval

theorem extraction_repeatable_witness:
  "fst (ContractsSpider_parse_page (\<lambda>s. Some ''11-2017-1926C'') (\<lambda>k. 5 :: nat)
      \<lparr>cr_url = contracts_url, cr_headlines = [[''CONTRATO 11-2017-1926C'', ''01/06/2018'']],
       cr_details = [\<lparr>p_texts = [''X'', ''1 - ACME'', ''R$ 1,00'', ''01/06/2018''],
                      btn_href = None\<rparr>]\<rparr>)
     = [\<lparr>crawled_at = 5, crawled_from = contracts_url,
            contract_id = Some ''11-2017-1926C'', starts_at = ''01/06/2018'',
            summary = ''X'', contractor_document = ''1'', contractor_name = ''ACME'',
            contract_value = ''R$ 1,00'', ends_at = ''01/06/2018'', contract_files = None\<rparr>]
   \<and> map (\<lambda>item. item\<lparr>crawled_at := 0\<rparr>)
        (fst (ContractsSpider_parse_page (\<lambda>s. Some ''11-2017-1926C'') (\<lambda>k. 9 :: nat)
      \<lparr>cr_url = contracts_url, cr_headlines = [[''CONTRATO 11-2017-1926C'', ''01/06/2018'']],
       cr_details = [\<lparr>p_texts = [''X'', ''1 - ACME'', ''R$ 1,00'', ''01/06/2018''],
                      btn_href = None\<rparr>]\<rparr>))
     = [\<lparr>crawled_at = 0, crawled_from = contracts_url,
            contract_id = Some ''11-2017-1926C'', starts_at = ''01/06/2018'',
            summary = ''X'', contractor_document = ''1'', contractor_name = ''ACME'',
            contract_value = ''R$ 1,00'', ends_at = ''01/06/2018'', contract_files = None\<rparr>]
   \<and> map (\<lambda>item. item\<lparr>crawled_at := 0\<rparr>)
        (fst (BidsSpider_parse_page
          \<lparr>from_str_to_datetime = (\<lambda>s. if s = '''' then None else Some s),
           is_url = (\<lambda>s. prefix ''http'' s),
           url_pattern_search = (\<lambda>u. Some (''pmfs'', ''08-2020'')), urljoin = (\<lambda>b u. u),
           str_upper = (\<lambda>s. ''PMFS''), str_capitalize = (\<lambda>s. s)\<rparr>
          (\<lambda>k. 9)
          \<lparr>br_url = ''http://www.feiradesantana.ba.gov.br/seadm/licitacoes_pm.asp?cat=PMFS&dt=08-2020'',
           br_modalities = ['' '', '' Convite 12-2020 ''],
           br_descriptions = [\<lparr>hrefs = [], texts = ['' Objeto '']\<rparr>,
                              \<lparr>hrefs = [''http://x/edital.pdf''],
                               texts = ['' Objeto:'', '' agua '', ''  '']\<rparr>],
           br_bids_history = [[\<lparr>td2_text = Some '' 01/08/2020 '', td3_text = Some ''Aviso'',
                                td4_href = None\<rparr>,
                               \<lparr>td2_text = Some ''  '', td3_text = Some ''Ata'',
                                td4_href = None\<rparr>]],
           br_date = ['' 10/08/2020 09h00'']\<rparr>))
     = [\<lparr>crawled_at = 0 :: nat,
         crawled_from =
           ''http://www.feiradesantana.ba.gov.br/seadm/licitacoes_pm.asp?cat=PMFS&dt=08-2020'',
         public_agency = ''PMFS'', bid_month = 8, bid_year = 2020,
         description = ''Objeto:agua'',
         history = [\<lparr>event_published_at = ''01/08/2020'', event = ''Aviso'', event_url = []\<rparr>],
         codes = ''Convite 12-2020'', modality = Some ''convite'',
         session_at = Some ''10/08/2020 09h00'',
         bid_files = Some [''http://x/edital.pdf'']\<rparr>]"
proof -
  let ?lib = "\<lparr>from_str_to_datetime = (\<lambda>s. if s = '''' then None else Some s),
           is_url = (\<lambda>s. prefix ''http'' s),
           url_pattern_search = (\<lambda>u. Some (''pmfs'', ''08-2020'')), urljoin = (\<lambda>b u. u),
           str_upper = (\<lambda>s. ''PMFS''), str_capitalize = (\<lambda>s. s)\<rparr>"
  let ?b = "\<lparr>br_url = ''http://www.feiradesantana.ba.gov.br/seadm/licitacoes_pm.asp?cat=PMFS&dt=08-2020'',
           br_modalities = ['' '', '' Convite 12-2020 ''],
           br_descriptions = [\<lparr>hrefs = [], texts = ['' Objeto '']\<rparr>,
                              \<lparr>hrefs = [''http://x/edital.pdf''],
                               texts = ['' Objeto:'', '' agua '', ''  '']\<rparr>],
           br_bids_history = [[\<lparr>td2_text = Some '' 01/08/2020 '', td3_text = Some ''Aviso'',
                                td4_href = None\<rparr>,
                               \<lparr>td2_text = Some ''  '', td3_text = Some ''Ata'',
                                td4_href = None\<rparr>]],
           br_date = ['' 10/08/2020 09h00'']\<rparr>"
  have eb: "BidsSpider_parse_page ?lib (\<lambda>k. 5 + k) ?b
     = ([\<lparr>crawled_at = 5 :: nat,
         crawled_from =
           ''http://www.feiradesantana.ba.gov.br/seadm/licitacoes_pm.asp?cat=PMFS&dt=08-2020'',
         public_agency = ''PMFS'', bid_month = 8, bid_year = 2020,
         description = ''Objeto:agua'',
         history = [\<lparr>event_published_at = ''01/08/2020'', event = ''Aviso'', event_url = []\<rparr>],
         codes = ''Convite 12-2020'', modality = Some ''convite'',
         session_at = Some ''10/08/2020 09h00'',
         bid_files = Some [''http://x/edital.pdf'']\<rparr>], None)"
    by (simp add: bids_eval)
  note tb = extraction_repeatable[where c = "0 :: nat" and clock_a = "\<lambda>k. 9"
      and clock_b = "\<lambda>k. 5 + k" and lib = ?lib and bids = ?b, THEN conjunct1]
  have b: "map (\<lambda>item. item\<lparr>crawled_at := 0\<rparr>) (fst (BidsSpider_parse_page ?lib (\<lambda>k. 9) ?b))
     = [\<lparr>crawled_at = 0 :: nat,
         crawled_from =
           ''http://www.feiradesantana.ba.gov.br/seadm/licitacoes_pm.asp?cat=PMFS&dt=08-2020'',
         public_agency = ''PMFS'', bid_month = 8, bid_year = 2020,
         description = ''Objeto:agua'',
         history = [\<lparr>event_published_at = ''01/08/2020'', event = ''Aviso'', event_url = []\<rparr>],
         codes = ''Convite 12-2020'', modality = Some ''convite'',
         session_at = Some ''10/08/2020 09h00'',
         bid_files = Some [''http://x/edital.pdf'']\<rparr>]"
    using tb by (simp add: eb)
  let ?r = "\<lparr>cr_url = contracts_url, cr_headlines = [[''CONTRATO 11-2017-1926C'', ''01/06/2018'']],
       cr_details = [\<lparr>p_texts = [''X'', ''1 - ACME'', ''R$ 1,00'', ''01/06/2018''],
                      btn_href = None\<rparr>]\<rparr>"
  have e: "fst (ContractsSpider_parse_page (\<lambda>s. Some ''11-2017-1926C'') (\<lambda>k. 5 :: nat) ?r)
     = [\<lparr>crawled_at = 5, crawled_from = contracts_url,
            contract_id = Some ''11-2017-1926C'', starts_at = ''01/06/2018'',
            summary = ''X'', contractor_document = ''1'', contractor_name = ''ACME'',
            contract_value = ''R$ 1,00'', ends_at = ''01/06/2018'', contract_files = None\<rparr>]"
    by (simp add: contract_eval)
  note t = extraction_repeatable[where c = "0 :: nat" and clock_a = "\<lambda>k. 9" and clock_b = "\<lambda>k. 5"
      and idf = "\<lambda>s. Some ''11-2017-1926C''" and contracts = ?r,
      THEN conjunct2, THEN conjunct2, THEN conjunct1]
  have k: "map (\<lambda>item. item\<lparr>crawled_at := 0\<rparr>)
        (fst (ContractsSpider_parse_page (\<lambda>s. Some ''11-2017-1926C'') (\<lambda>k. 9 :: nat) ?r))
     = [\<lparr>crawled_at = 0, crawled_from = contracts_url,
            contract_id = Some ''11-2017-1926C'', starts_at = ''01/06/2018'',
            summary = ''X'', contractor_document = ''1'', contractor_name = ''ACME'',
            contract_value = ''R$ 1,00'', ends_at = ''01/06/2018'', contract_files = None\<rparr>]"
    using t by (simp add: e)
  show ?thesis by (rule conjI[OF e conjI[OF k b]])
qed

text \<open>
  C8 as stated fails: the records of two runs that read different times differ.
\<close>

theorem extraction_repeatable_counterexample:
  "ContractsSpider_parse_page (\<lambda>s. Some ''11-2017-1926C'') (\<lambda>k. 5 :: nat)
      \<lparr>cr_url = contracts_url, cr_headlines = [[''CONTRATO 11-2017-1926C'', ''01/06/2018'']],
       cr_details = [\<lparr>p_texts = [''X'', ''1 - ACME'', ''R$ 1,00'', ''01/06/2018''],
                      btn_href = None\<rparr>]\<rparr>
   \<noteq> ContractsSpider_parse_page (\<lambda>s. Some ''11-2017-1926C'') (\<lambda>k. 9 :: nat)
      \<lparr>cr_url = contracts_url, cr_headlines = [[''CONTRATO 11-2017-1926C'', ''01/06/2018'']],
       cr_details = [\<lparr>p_texts = [''X'', ''1 - ACME'', ''R$ 1,00'', ''01/06/2018''],
                      btn_href = None\<rparr>]\<rparr>"
  by (simp add: contract_eval)


subsection \<open>The contractor of a contract\<close>

text \<open>
  C10: when the contractor text splits at \<open>" - "\<close> into at least two pieces, the item has the
  first piece as \<open>contractor_document\<close> and the second as \<open>contractor_name\<close>; the pieces
  after the second occur nowhere in the item.
\<close>

theorem contractor_split:
  assumes "2 \<le> length contract_and_date"
    and "clean_details raw_details = d0 # contractor # d2 # d3 # others"
    and "py_split '' - '' contractor = document # name # dropped"
  shows "contract_item idf now url contract_and_date raw_details
       = Inr \<lparr>crawled_at = now, crawled_from = url,
              contract_id = idf (contract_and_date ! 0), starts_at = contract_and_date ! 1,
              summary = d0, contractor_document = document, contractor_name = name,
              contract_value = d2, ends_at = d3,
              contract_files =
                (case btn_href raw_details of
                   None \<Rightarrow> None
                 | Some href \<Rightarrow> if href = '''' then None else Some [contracts_base_url @ href])\<rparr>"
  using assms by (simp add: contract_item_def Let_def split: option.splits)

theorem contractor_split_witness:
  "clean_details
     \<lparr>p_texts = [''Objeto:'', '' AGUA MINERAL '', ''Contratada:'',
                 ''74.096.231/0001-80 - WAMBERTO LOPES DE ARAUJO - ME'', ''Valor:'',
                 ''R$ 62.960,00'', ''Data Final de Contrato:'', ''01/06/2018'', ''VISUALIZAR''],
      btn_href = Some ''/contrato.pdf''\<rparr>
     = [''AGUA MINERAL'', ''74.096.231/0001-80 - WAMBERTO LOPES DE ARAUJO - ME'',
        ''R$ 62.960,00'', ''01/06/2018'']
   \<and> py_split '' - '' ''74.096.231/0001-80 - WAMBERTO LOPES DE ARAUJO - ME''
     = [''74.096.231/0001-80'', ''WAMBERTO LOPES DE ARAUJO'', ''ME'']
   \<and> contract_item (\<lambda>s. Some ''11-2017-1926C'') (7 :: nat) contracts_url
       [''CONTRATO 11-2017-1926C'', ''01/06/2018'']
       \<lparr>p_texts = [''Objeto:'', '' AGUA MINERAL '', ''Contratada:'',
                 ''74.096.231/0001-80 - WAMBERTO LOPES DE ARAUJO - ME'', ''Valor:'',
                 ''R$ 62.960,00'', ''Data Final de Contrato:'', ''01/06/2018'', ''VISUALIZAR''],
        btn_href = Some ''/contrato.pdf''\<rparr>
     = Inr \<lparr>crawled_at = 7, crawled_from = contracts_url,
            contract_id = Some ''11-2017-1926C'', starts_at = ''01/06/2018'',
            summary = ''AGUA MINERAL'', contractor_document = ''74.096.231/0001-80'',
            contractor_name = ''WAMBERTO LOPES DE ARAUJO'',
            contract_value = ''R$ 62.960,00'', ends_at = ''01/06/2018'',
            contract_files =
              Some [''http://www.transparencia.feiradesantana.ba.gov.br/contrato.pdf'']\<rparr>"
proof -
  let ?n = "\<lparr>p_texts = [''Objeto:'', '' AGUA MINERAL '', ''Contratada:'',
                 ''74.096.231/0001-80 - WAMBERTO LOPES DE ARAUJO - ME'', ''Valor:'',
                 ''R$ 62.960,00'', ''Data Final de Contrato:'', ''01/06/2018'', ''VISUALIZAR''],
      btn_href = Some ''/contrato.pdf''\<rparr>"
  have l: "2 \<le> length [''CONTRATO 11-2017-1926C'', ''01/06/2018'']" by simp
  have c: "clean_details ?n
     = ''AGUA MINERAL'' # ''74.096.231/0001-80 - WAMBERTO LOPES DE ARAUJO - ME''
        # ''R$ 62.960,00'' # ''01/06/2018'' # []"
    by (simp add: clean_details_def labels_def strip_def is_space_def)
  have s: "py_split '' - '' ''74.096.231/0001-80 - WAMBERTO LOPES DE ARAUJO - ME''
     = ''74.096.231/0001-80'' # ''WAMBERTO LOPES DE ARAUJO'' # [''ME'']"
    by (simp add: py_split_def)
  note t = contractor_split[OF l c s, of "\<lambda>s. Some ''11-2017-1926C''" "7 :: nat" contracts_url]
  show ?thesis using c s t by (simp add: contracts_base_url_def)
qed

end
